theory Spec2Isabelle
  imports Main
begin

section \<open>Values, ports and envelopes\<close>

text \<open>
  Stored values and wire payloads are JavaScript values. A buffer carries its identity,
  a typed-array view carries the identity of the buffer it looks at and its numeric
  elements, an object carries its enumerable properties in the order in which
  \<^verbatim>\<open>for (const key in value)\<close> visits them.
\<close>

datatype jsval =
    JUndefined
  | JNull
  | JBool bool
  | JNum int
  | JStr string
  | ArrayBuffer nat
  | TypedArray nat "int list"
  | JArray "jsval list"
  | JObject "(string \<times> jsval) list"

text \<open>A \<^verbatim>\<open>MessageChannel\<close> numbered \<open>n\<close> has the two entangled ports \<open>Port1 n\<close>, \<open>Port2 n\<close>.\<close>

datatype port = Port1 nat | Port2 nat

fun peer :: "port \<Rightarrow> port" where
  "peer (Port1 n) = Port2 n"
| "peer (Port2 n) = Port1 n"

text \<open>\<^verbatim>\<open>interface ChannelMessage<T> {id: string; type: ...; payload?: T}\<close>\<close>

record channel_message =
  msg_id :: string
  msg_type :: string
  msg_payload :: "jsval option"

text \<open>What a call does to the outside world, in the order in which it does it.\<close>

datatype event =
    is_PostMessage: PostMessage (post_port: port) (post_message: channel_message)
      (post_transfer: "jsval list")
  | AddEventListener port
  | RemoveEventListener port
  | PortStart port
  | ConsoleWarn string jsval
  | is_EncodeCall: EncodeCall jsval
  | is_DecodeCall: DecodeCall jsval
  | is_GetTransferablesCall: GetTransferablesCall jsval

datatype error =
    PortNotFound
  | AlreadyAttached
  | ReplicatedGotSubscription
  | UnknownMessageType string

type_synonym 'a result = "error + 'a \<times> event list"

section \<open>The wrapped store\<close>

text \<open>
  The wrapped \<^verbatim>\<open>Writable\<close> of svelte/store, as far as the channel stores use it: a
  cell with a current value and the observers registered on it. \<open>issued\<close> counts the
  subscriptions made so far and names the next one.
\<close>

record writable =
  current :: jsval
  observers :: "nat list"
  issued :: nat

definition writable_new :: "jsval \<Rightarrow> writable" where
  "writable_new v = \<lparr>current = v, observers = [], issued = 0\<rparr>"

definition writable_get :: "writable \<Rightarrow> jsval" where
  "writable_get w = current w"

definition writable_set :: "writable \<Rightarrow> jsval \<Rightarrow> writable" where
  "writable_set w v = w\<lparr>current := v\<rparr>"

definition writable_update :: "writable \<Rightarrow> (jsval \<Rightarrow> jsval) \<Rightarrow> writable" where
  "writable_update w f = w\<lparr>current := f (current w)\<rparr>"

definition writable_subscribe :: "writable \<Rightarrow> writable \<times> nat" where
  "writable_subscribe w =
     (w\<lparr>observers := observers w @ [issued w], issued := Suc (issued w)\<rparr>, issued w)"

definition writable_unsubscribe :: "writable \<Rightarrow> nat \<Rightarrow> writable" where
  "writable_unsubscribe w k = w\<lparr>observers := removeAll k (observers w)\<rparr>"

section \<open>getTransferables\<close>

fun weight :: "jsval \<Rightarrow> nat" where
  "weight (JArray vs) = Suc (sum_list (map weight vs))"
| "weight (JObject kvs) = Suc (sum_list (map (\<lambda>kv. weight (snd kv)) kvs))"
| "weight (TypedArray b xs) = Suc 0"
| "weight _ = 0"

text \<open>
  The branches of the source in their order: \<^verbatim>\<open>value instanceof ArrayBuffer\<close>, then
  \<^verbatim>\<open>Array.isArray(value)\<close>, then \<^verbatim>\<open>value && typeof value === 'object'\<close>, which holds
  of plain objects and of typed-array views (whose enumerable keys are their indices,
  each holding a number) and fails on \<^verbatim>\<open>null\<close> and on every primitive.
\<close>

function getTransferables :: "jsval \<Rightarrow> jsval list" where
  "getTransferables (ArrayBuffer b) = [ArrayBuffer b]"
| "getTransferables (JArray vs) = concat (map getTransferables vs)"
| "getTransferables (JObject kvs) = concat (map (\<lambda>kv. getTransferables (snd kv)) kvs)"
| "getTransferables (TypedArray b xs) = concat (map (\<lambda>x. getTransferables (JNum x)) xs)"
| "getTransferables JUndefined = []"
| "getTransferables JNull = []"
| "getTransferables (JBool b) = []"
| "getTransferables (JNum n) = []"
| "getTransferables (JStr s) = []"
  by pat_completeness auto

termination
proof (relation "measure weight")
  have elem: "v \<in> set vs \<Longrightarrow> weight v < Suc (sum_list (map weight vs))" for v vs
    by (induction vs) auto
  have entry: "kv \<in> set kvs \<Longrightarrow>
      weight (snd kv) < Suc (sum_list (map (\<lambda>kv. weight (snd kv)) kvs))"
    for kv :: "string \<times> jsval" and kvs
    by (induction kvs) auto
  show "wf (measure weight)" by simp
  show "\<And>vs x. x \<in> set vs \<Longrightarrow> (x, JArray vs) \<in> measure weight"
    by (simp add: elem)
  show "\<And>kvs x. x \<in> set kvs \<Longrightarrow> (snd x, JObject kvs) \<in> measure weight"
    by (simp add: entry)
  show "\<And>b xs x. x \<in> set xs \<Longrightarrow> (JNum x, TypedArray b xs) \<in> measure weight"
    by simp
qed

text \<open>
  The specification's reading of the scan: walk the tree depth first, a node before its
  children and the children in order, and keep the nodes that are buffers. Views and
  primitives are leaves of the walk.
\<close>

fun instanceof_ArrayBuffer :: "jsval \<Rightarrow> bool" where
  "instanceof_ArrayBuffer (ArrayBuffer b) = True"
| "instanceof_ArrayBuffer _ = False"

fun traversal :: "jsval \<Rightarrow> jsval list" where
  "traversal (JArray vs) = JArray vs # concat (map traversal vs)"
| "traversal (JObject kvs) = JObject kvs # concat (map (\<lambda>kv. traversal (snd kv)) kvs)"
| "traversal v = [v]"

definition buffers_depth_first :: "jsval \<Rightarrow> jsval list" where
  "buffers_depth_first v = filter instanceof_ArrayBuffer (traversal v)"

section \<open>BaseStore\<close>

text \<open>\<^verbatim>\<open>ChannelStoreOptions\<close>: both hooks are optional.\<close>

record options =
  encode :: "(jsval \<Rightarrow> jsval) option"
  decode :: "(jsval \<Rightarrow> jsval) option"

record base_store =
  store_id :: string
  wrapped :: writable
  options :: options

text \<open>
  \<^verbatim>\<open>this.options.decode ? this.options.decode(payload) : payload\<close>, and the same for
  encode. A call of a configured hook is recorded; without a hook nothing is called.
\<close>

definition decodePayload :: "options \<Rightarrow> jsval \<Rightarrow> jsval \<times> event list" where
  "decodePayload opts payload =
     (case decode opts of
        Some f \<Rightarrow> (f payload, [DecodeCall payload])
      | None \<Rightarrow> (payload, []))"

definition encodePayload :: "options \<Rightarrow> jsval \<Rightarrow> jsval \<times> event list" where
  "encodePayload opts v =
     (case encode opts of
        Some f \<Rightarrow> (f v, [EncodeCall v])
      | None \<Rightarrow> (v, []))"

definition set_message :: "string \<Rightarrow> jsval \<Rightarrow> channel_message" where
  "set_message sid payload =
     \<lparr>msg_id = sid, msg_type = ''set'', msg_payload = Some payload\<rparr>"

definition control_message :: "string \<Rightarrow> string \<Rightarrow> channel_message" where
  "control_message sid ty = \<lparr>msg_id = sid, msg_type = ty, msg_payload = None\<rparr>"

text \<open>The \<^verbatim>\<open>for (let i = 0; i < ports.length; i++)\<close> loop of \<^verbatim>\<open>sendPayload\<close>, from index \<open>i\<close> on.\<close>

function sendLoop :: "string \<Rightarrow> jsval \<Rightarrow> port list \<Rightarrow> jsval list \<Rightarrow> nat \<Rightarrow> event list" where
  "sendLoop sid payload ps transfer i =
     (if i < length ps
      then PostMessage (ps ! i) (set_message sid payload)
             (if int i = int (length ps) - 1 then transfer else [])
           # sendLoop sid payload ps transfer (Suc i)
      else [])"
  by pat_completeness auto

termination
  by (relation "measure (\<lambda>(sid, payload, ps, transfer, i). length ps - i)") auto

declare sendLoop.simps [simp del]

definition sendPayload :: "options \<Rightarrow> string \<Rightarrow> jsval \<Rightarrow> port list \<Rightarrow> event list" where
  "sendPayload opts sid payload ps =
     (if length ps = 0 then []
      else (case encode opts of
              Some f \<Rightarrow> GetTransferablesCall payload
                        # sendLoop sid payload ps (getTransferables payload) 0
            | None \<Rightarrow> sendLoop sid payload ps [] 0))"

section \<open>PrimaryStore\<close>

text \<open>
  \<open>ports\<close> is the array of attachments (the handler of an entry is the closure over its
  port); \<open>subscribers\<close> is the \<^verbatim>\<open>Set<MessagePort>\<close> in insertion order, which is the
  order \<^verbatim>\<open>Array.from\<close> gives.
\<close>

record primary_store = base_store +
  ports :: "port list"
  subscribers :: "port list"

definition primary_new :: "string \<Rightarrow> writable \<Rightarrow> options \<Rightarrow> primary_store" where
  "primary_new sid w opts =
     \<lparr>store_id = sid, wrapped = w, options = opts, ports = [], subscribers = []\<rparr>"

definition set_add :: "'a list \<Rightarrow> 'a \<Rightarrow> 'a list" where
  "set_add xs x = (if x \<in> set xs then xs else xs @ [x])"

definition set_delete :: "'a list \<Rightarrow> 'a \<Rightarrow> 'a list" where
  "set_delete xs x = removeAll x xs"

fun findIndex :: "('a \<Rightarrow> bool) \<Rightarrow> 'a list \<Rightarrow> int" where
  "findIndex P [] = - 1"
| "findIndex P (x # xs) =
     (if P x then 0 else (let r = findIndex P xs in if r = - 1 then - 1 else r + 1))"

definition splice1 :: "'a list \<Rightarrow> nat \<Rightarrow> 'a list" where
  "splice1 xs i = take i xs @ drop (Suc i) xs"

definition payload_of :: "channel_message \<Rightarrow> jsval" where
  "payload_of m = (case msg_payload m of Some p \<Rightarrow> p | None \<Rightarrow> JUndefined)"

definition primary_handleMessage ::
  "primary_store \<Rightarrow> port \<Rightarrow> channel_message \<Rightarrow> primary_store result" where
  "primary_handleMessage s p m =
     (if msg_id m \<noteq> store_id s then Inr (s, [])
      else if msg_type m = ''set'' then
        (let payload = payload_of m;
             (v, ev) = decodePayload (options s) payload;
             s' = s\<lparr>wrapped := writable_set (wrapped s) v\<rparr>;
             ps = filter (\<lambda>q. q \<noteq> p) (subscribers s')
         in Inr (s', ev @ sendPayload (options s') (store_id s') payload ps))
      else if msg_type m = ''subscribe'' then
        (let v = writable_get (wrapped s);
             (payload, ev) = encodePayload (options s) v;
             s' = s\<lparr>subscribers := set_add (subscribers s) p\<rparr>
         in Inr (s', ev @ sendPayload (options s') (store_id s') payload [p]))
      else if msg_type m = ''unsubscribe'' then
        Inr (s\<lparr>subscribers := set_delete (subscribers s) p\<rparr>, [])
      else Inl (UnknownMessageType (msg_type m)))"

definition primary_attach :: "primary_store \<Rightarrow> port \<Rightarrow> bool \<Rightarrow> primary_store result" where
  "primary_attach s p start =
     Inr (s\<lparr>ports := ports s @ [p]\<rparr>,
          AddEventListener p # (if start then [PortStart p] else []))"

definition primary_detach :: "primary_store \<Rightarrow> port \<Rightarrow> primary_store result" where
  "primary_detach s p =
     (let index = findIndex (\<lambda>q. q = p) (ports s)
      in if index = - 1 then Inl PortNotFound
         else Inr (s\<lparr>ports := splice1 (ports s) (nat index),
                      subscribers := set_delete (subscribers s) p\<rparr>,
                   [RemoveEventListener p]))"

definition primary_set :: "primary_store \<Rightarrow> jsval \<Rightarrow> primary_store result" where
  "primary_set s v =
     (let s' = s\<lparr>wrapped := writable_set (wrapped s) v\<rparr>;
          (payload, ev) = encodePayload (options s') v;
          ps = subscribers s'
      in Inr (s', ev @ sendPayload (options s') (store_id s') payload ps))"

definition primary_update :: "primary_store \<Rightarrow> (jsval \<Rightarrow> jsval) \<Rightarrow> primary_store result" where
  "primary_update s f = Inr (s\<lparr>wrapped := writable_update (wrapped s) f\<rparr>, [])"

definition primary_subscribe :: "primary_store \<Rightarrow> (primary_store \<times> nat) result" where
  "primary_subscribe s =
     (let (w, k) = writable_subscribe (wrapped s) in Inr ((s\<lparr>wrapped := w\<rparr>, k), []))"

section \<open>ReplicatedStore\<close>

text \<open>\<open>numSubscribers\<close> is a JavaScript number changed by \<^verbatim>\<open>++\<close> and \<^verbatim>\<open>--\<close> only: an integer.\<close>

record replicated_store = base_store +
  upstream :: "port option"
  numSubscribers :: int

definition replica_new :: "string \<Rightarrow> writable \<Rightarrow> options \<Rightarrow> replicated_store" where
  "replica_new sid w opts =
     \<lparr>store_id = sid, wrapped = w, options = opts, upstream = None, numSubscribers = 0\<rparr>"

definition replica_handleMessage ::
  "replicated_store \<Rightarrow> channel_message \<Rightarrow> replicated_store result" where
  "replica_handleMessage r m =
     (if msg_id m \<noteq> store_id r then Inr (r, [])
      else if msg_type m = ''set'' then
        (let payload = payload_of m;
             (v, ev) = decodePayload (options r) payload
         in Inr (r\<lparr>wrapped := writable_set (wrapped r) v\<rparr>, ev))
      else if msg_type m = ''subscribe'' \<or> msg_type m = ''unsubscribe'' then
        Inl ReplicatedGotSubscription
      else Inl (UnknownMessageType (msg_type m)))"

definition replica_attach ::
  "replicated_store \<Rightarrow> port \<Rightarrow> bool \<Rightarrow> replicated_store result" where
  "replica_attach r p start =
     (case upstream r of
        Some u \<Rightarrow> Inl AlreadyAttached
      | None \<Rightarrow>
          Inr (r\<lparr>upstream := Some p\<rparr>,
               AddEventListener p # (if start then [PortStart p] else [])
               @ (if numSubscribers r > 0
                  then [PostMessage p (control_message (store_id r) ''subscribe'') []]
                  else [])))"

definition replica_detach :: "replicated_store \<Rightarrow> port \<Rightarrow> replicated_store result" where
  "replica_detach r p =
     (case upstream r of
        Some u \<Rightarrow>
          if u = p
          then Inr (r\<lparr>upstream := None\<rparr>,
                    (if numSubscribers r > 0
                     then [PostMessage u (control_message (store_id r) ''unsubscribe'') []]
                     else [])
                    @ [RemoveEventListener u])
          else Inl PortNotFound
      | None \<Rightarrow> Inl PortNotFound)"

definition not_attached_warning :: "string \<Rightarrow> string" where
  "not_attached_warning sid =
     ''ReplicatedStore ('' @ sid @ ''): set called but not attached, this update will be lost''"

definition replica_set :: "replicated_store \<Rightarrow> jsval \<Rightarrow> replicated_store result" where
  "replica_set r v =
     (let r' = r\<lparr>wrapped := writable_set (wrapped r) v\<rparr>
      in case upstream r' of
           Some u \<Rightarrow>
             (let (payload, ev) = encodePayload (options r') v
              in Inr (r', ev @ sendPayload (options r') (store_id r') payload [u]))
         | None \<Rightarrow> Inr (r', [ConsoleWarn (not_attached_warning (store_id r')) v]))"

definition replica_update ::
  "replicated_store \<Rightarrow> (jsval \<Rightarrow> jsval) \<Rightarrow> replicated_store result" where
  "replica_update r f = replica_set r (f (writable_get (wrapped r)))"

text \<open>
  \<^verbatim>\<open>subscribe\<close> returns the new state, what was sent, and the number \<open>k\<close> that names the
  closure it returns; \<open>replica_unsubscriber r k\<close> is one invocation of that closure.
\<close>

definition replica_subscribe :: "replicated_store \<Rightarrow> (replicated_store \<times> nat) result" where
  "replica_subscribe r =
     (let r1 = r\<lparr>numSubscribers := numSubscribers r + 1\<rparr>;
          ev = (case upstream r1 of
                  Some u \<Rightarrow>
                    if numSubscribers r1 = 1
                    then [PostMessage u (control_message (store_id r1) ''subscribe'') []]
                    else []
                | None \<Rightarrow> []);
          (w, k) = writable_subscribe (wrapped r1)
      in Inr ((r1\<lparr>wrapped := w\<rparr>, k), ev))"

definition replica_unsubscriber :: "replicated_store \<Rightarrow> nat \<Rightarrow> replicated_store result" where
  "replica_unsubscriber r k =
     (let r1 = r\<lparr>numSubscribers := numSubscribers r - 1\<rparr>;
          r2 = r1\<lparr>wrapped := writable_unsubscribe (wrapped r1) k\<rparr>
      in Inr (r2,
              (case upstream r2 of
                 Some u \<Rightarrow>
                   if numSubscribers r2 = 0
                   then [PostMessage u (control_message (store_id r2) ''unsubscribe'') []]
                   else []
               | None \<Rightarrow> [])))"

section \<open>Sequences of calls\<close>

datatype replica_call =
    RAttach port bool
  | RDetach port
  | RSet jsval
  | RUpdate "jsval \<Rightarrow> jsval"
  | RSubscribe
  | RUnsubscriber nat
  | RMessage channel_message

text \<open>An unsubscriber can be invoked once the \<^verbatim>\<open>subscribe\<close> call that returns it was made.\<close>

fun replica_enabled :: "replicated_store \<Rightarrow> replica_call \<Rightarrow> bool" where
  "replica_enabled r (RUnsubscriber k) = (k < issued (wrapped r))"
| "replica_enabled r c = True"

fun replica_step :: "replicated_store \<Rightarrow> replica_call \<Rightarrow> replicated_store result" where
  "replica_step r (RAttach p start) = replica_attach r p start"
| "replica_step r (RDetach p) = replica_detach r p"
| "replica_step r (RSet v) = replica_set r v"
| "replica_step r (RUpdate f) = replica_update r f"
| "replica_step r RSubscribe = map_sum id (\<lambda>((r', k), ev). (r', ev)) (replica_subscribe r)"
| "replica_step r (RUnsubscriber k) = replica_unsubscriber r k"
| "replica_step r (RMessage m) = replica_handleMessage r m"

text \<open>
  A call that throws leaves the store as it was (every \<^verbatim>\<open>throw\<close> of the class comes
  before its first assignment) and the caller goes on. \<open>None\<close>: the sequence invokes a
  closure that no earlier call returned.
\<close>

fun replica_run ::
  "replicated_store \<Rightarrow> replica_call list \<Rightarrow> (replicated_store \<times> event list) option" where
  "replica_run r [] = Some (r, [])"
| "replica_run r (c # cs) =
     (if \<not> replica_enabled r c then None
      else case replica_step r c of
             Inl e \<Rightarrow> replica_run r cs
           | Inr (r', ev) \<Rightarrow>
               (case replica_run r' cs of
                  None \<Rightarrow> None
                | Some (r'', ev') \<Rightarrow> Some (r'', ev @ ev')))"

text \<open>
  The count agrees with the wrapped store: it is the number of registered observers.
  \<open>first_invocation\<close>: a closure is invoked only while its observer is still registered,
  that is, for the first time.
\<close>

definition count_matches_observers :: "replicated_store \<Rightarrow> bool" where
  "count_matches_observers r =
     (numSubscribers r = int (length (observers (wrapped r))) \<and>
      distinct (observers (wrapped r)) \<and>
      (\<forall>k \<in> set (observers (wrapped r)). k < issued (wrapped r)))"

fun first_invocation :: "replicated_store \<Rightarrow> replica_call \<Rightarrow> bool" where
  "first_invocation r (RUnsubscriber k) = (k \<in> set (observers (wrapped r)))"
| "first_invocation r c = True"

datatype primary_call =
    PAttach port bool
  | PDetach port
  | PSet jsval
  | PUpdate "jsval \<Rightarrow> jsval"
  | PSubscribe
  | PMessage port channel_message

text \<open>
  \<^verbatim>\<open>handleMessage\<close> is private: it runs only as the listener that \<^verbatim>\<open>attach\<close> registers
  on a port and \<^verbatim>\<open>detach\<close> removes.
\<close>

fun primary_enabled :: "primary_store \<Rightarrow> primary_call \<Rightarrow> bool" where
  "primary_enabled s (PMessage p m) = (p \<in> set (ports s))"
| "primary_enabled s c = True"

fun primary_step :: "primary_store \<Rightarrow> primary_call \<Rightarrow> primary_store result" where
  "primary_step s (PAttach p start) = primary_attach s p start"
| "primary_step s (PDetach p) = primary_detach s p"
| "primary_step s (PSet v) = primary_set s v"
| "primary_step s (PUpdate f) = primary_update s f"
| "primary_step s PSubscribe = map_sum id (\<lambda>((s', k), ev). (s', ev)) (primary_subscribe s)"
| "primary_step s (PMessage p m) = primary_handleMessage s p m"

inductive primary_reachable :: "primary_store \<Rightarrow> bool" where
  reachable_new: "primary_reachable (primary_new sid w opts)"
| reachable_step:
    "primary_reachable s \<Longrightarrow> primary_enabled s c \<Longrightarrow> primary_step s c = Inr (s', ev)
     \<Longrightarrow> primary_reachable s'"

fun primary_run ::
  "primary_store \<Rightarrow> primary_call list \<Rightarrow> (primary_store \<times> event list) option" where
  "primary_run s [] = Some (s, [])"
| "primary_run s (c # cs) =
     (if \<not> primary_enabled s c then None
      else case primary_step s c of
             Inl e \<Rightarrow> primary_run s cs
           | Inr (s', ev) \<Rightarrow>
               (case primary_run s' cs of
                  None \<Rightarrow> None
                | Some (s'', ev') \<Rightarrow> Some (s'', ev @ ev')))"

text \<open>The call is the delivery of a \<open>subscribe\<close> envelope for store \<open>sid\<close> from port \<open>p\<close>.\<close>

fun is_subscribe_from :: "port \<Rightarrow> string \<Rightarrow> primary_call \<Rightarrow> bool" where
  "is_subscribe_from p sid (PMessage q m) =
     (q = p \<and> msg_id m = sid \<and> msg_type m = ''subscribe'')"
| "is_subscribe_from p sid c = False"

section \<open>What was sent\<close>

fun posts :: "event list \<Rightarrow> (port \<times> channel_message \<times> jsval list) list" where
  "posts [] = []"
| "posts (PostMessage p m tr # ev) = (p, m, tr) # posts ev"
| "posts (e # ev) = posts ev"

definition sent_ports :: "event list \<Rightarrow> port list" where
  "sent_ports ev = map fst (posts ev)"

definition sent_messages :: "event list \<Rightarrow> channel_message list" where
  "sent_messages ev = map (\<lambda>(p, m, tr). m) (posts ev)"

definition sent_types :: "event list \<Rightarrow> string list" where
  "sent_types ev = map (\<lambda>(p, m, tr). msg_type m) (posts ev)"

text \<open>
  The messages of the \<^verbatim>\<open>postMessage\<close> calls made on port \<open>p\<close>, oldest first, whatever
  became of the calls.
\<close>

fun post_calls_on :: "port \<Rightarrow> event list \<Rightarrow> channel_message list" where
  "post_calls_on p [] = []"
| "post_calls_on p (PostMessage q m tr # ev) =
     (if q = p then m # post_calls_on p ev else post_calls_on p ev)"
| "post_calls_on p (e # ev) = post_calls_on p ev"

section \<open>The transport\<close>

text \<open>
  The store functions above record each \<^verbatim>\<open>postMessage\<close> call with its arguments. What
  the port does with a call is modelled here. Serialising the message fails with a
  \<^verbatim>\<open>DataCloneError\<close> when the transfer list names a buffer twice, or when a buffer of
  the message or of the list is already detached in the sender's realm; the call then
  throws and nothing is delivered. Otherwise the message is delivered to the listeners
  of the peer port and the buffers of the transfer list are detached in the sender.
  \<open>detached\<close> is the set of buffers detached in the sender's realm.
\<close>

fun buffer_ids :: "jsval list \<Rightarrow> nat list" where
  "buffer_ids [] = []"
| "buffer_ids (ArrayBuffer b # vs) = b # buffer_ids vs"
| "buffer_ids (v # vs) = buffer_ids vs"

definition post_throws :: "nat set \<Rightarrow> channel_message \<Rightarrow> jsval list \<Rightarrow> bool" where
  "post_throws detached m tr =
     (\<not> distinct tr \<or>
      set (buffer_ids (getTransferables (payload_of m))) \<inter> detached \<noteq> {} \<or>
      set (buffer_ids tr) \<inter> detached \<noteq> {})"

text \<open>
  The events of a store function list the \<^verbatim>\<open>postMessage\<close> calls it makes when none of
  them throws. \<open>transmit\<close> runs them against the port: it gives the messages delivered,
  with the ports they were posted on, the buffers detached afterwards, and whether the
  store function ended in a \<^verbatim>\<open>DataCloneError\<close>. The exception leaves the store function
  at once, so the list is cut at the first call that throws. Only a call made by
  \<open>sendPayload\<close> carries a payload or a transfer list, and no store function assigns to
  its state after \<open>sendPayload\<close>, so the state it returns is the state at the throw.
\<close>

fun transmit ::
  "nat set \<Rightarrow> event list \<Rightarrow> (port \<times> channel_message) list \<times> nat set \<times> bool" where
  "transmit detached [] = ([], detached, False)"
| "transmit detached (PostMessage p m tr # ev) =
     (if post_throws detached m tr then ([], detached, True)
      else (let (ms, detached', threw) = transmit (detached \<union> set (buffer_ids tr)) ev
            in ((p, m) # ms, detached', threw)))"
| "transmit detached (e # ev) = transmit detached ev"

definition delivered_on :: "nat set \<Rightarrow> port \<Rightarrow> event list \<Rightarrow> channel_message list" where
  "delivered_on detached p ev =
     map snd (filter (\<lambda>(q, m). q = p) (fst (transmit detached ev)))"

definition threw :: "nat set \<Rightarrow> event list \<Rightarrow> bool" where
  "threw detached ev = snd (snd (transmit detached ev))"

text \<open>
  The listener of a replica handles the delivered messages in order. A handler that
  throws changes nothing, and the next message is handled all the same.
\<close>

fun replica_handle_all :: "replicated_store \<Rightarrow> channel_message list \<Rightarrow> replicated_store" where
  "replica_handle_all r [] = r"
| "replica_handle_all r (m # ms) =
     (case replica_handleMessage r m of
        Inl e \<Rightarrow> replica_handle_all r ms
      | Inr (r', ev) \<Rightarrow> replica_handle_all r' ms)"

text \<open>The replica listens on port \<open>q\<close> iff \<open>q\<close> is its upstream.\<close>

definition replica_receive ::
  "replicated_store \<Rightarrow> port \<Rightarrow> channel_message list \<Rightarrow> replicated_store" where
  "replica_receive r q ms = (if upstream r = Some q then replica_handle_all r ms else r)"

section \<open>A codec and stores to compute with\<close>

fun encode_double :: "jsval \<Rightarrow> jsval" where
  "encode_double (JNum n) = JNum (2 * n)"
| "encode_double v = v"

fun decode_halve :: "jsval \<Rightarrow> jsval" where
  "decode_halve (JNum n) = JNum (n div 2)"
| "decode_halve v = v"

definition halving_codec :: options where
  "halving_codec = \<lparr>encode = Some encode_double, decode = Some decode_halve\<rparr>"

definition identity_codec :: options where
  "identity_codec = \<lparr>encode = None, decode = None\<rparr>"

definition detached_replica :: replicated_store where
  "detached_replica = replica_new ''s'' (writable_new (JNum 0)) identity_codec"

definition attached_replica :: replicated_store where
  "attached_replica = detached_replica\<lparr>upstream := Some (Port2 1)\<rparr>"

definition fanout_primary :: primary_store where
  "fanout_primary =
     \<lparr>store_id = ''s'', wrapped = writable_new (JNum 0), options = halving_codec,
      ports = [Port1 1, Port1 2, Port1 3], subscribers = [Port1 1, Port1 2, Port1 3]\<rparr>"

definition halving_replica :: replicated_store where
  "halving_replica =
     (replica_new ''s'' (writable_new (JNum 0)) halving_codec)\<lparr>upstream := Some (Port2 1)\<rparr>"

definition fresh_primary :: primary_store where
  "fresh_primary = primary_new ''s'' (writable_new (JNum 7)) halving_codec"

text \<open>The codec and the calls of the test \<^verbatim>\<open>transport serialization\<close>.\<close>

fun encode_words :: "jsval \<Rightarrow> jsval" where
  "encode_words v = (if v = JNum 42 then JStr ''forty two'' else JStr ''boring number'')"

fun decode_words :: "jsval \<Rightarrow> jsval" where
  "decode_words p = (if p = JStr ''forty two'' then JNum 42 else JNum 0)"

definition words_codec :: options where
  "words_codec = \<lparr>encode = Some encode_words, decode = Some decode_words\<rparr>"

definition test_primary_calls :: "primary_call list" where
  "test_primary_calls =
     [PAttach (Port1 1) True, PSet (JNum 42),
      PMessage (Port1 1) (control_message ''test'' ''subscribe''),
      PMessage (Port1 1) (control_message ''test'' ''unsubscribe''),
      PSubscribe,
      PMessage (Port1 1) (set_message ''test'' (JStr ''boring number''))]"

definition test_replica_calls :: "replica_call list" where
  "test_replica_calls =
     [RAttach (Port2 1) True, RSubscribe,
      RMessage (set_message ''test'' (JStr ''forty two'')),
      RUnsubscriber 0, RSet (JNum 43232)]"

text \<open>
  Hooks that hand their argument back, a value that holds one buffer twice, and a
  primary and a replica joined by channel 1; the same for the codec of the test.
\<close>

definition passthrough_codec :: options where
  "passthrough_codec = \<lparr>encode = Some (\<lambda>v. v), decode = Some (\<lambda>p. p)\<rparr>"

definition shared_buffers :: jsval where
  "shared_buffers = JArray [ArrayBuffer 1, ArrayBuffer 1]"

definition passthrough_primary :: primary_store where
  "passthrough_primary =
     \<lparr>store_id = ''s'', wrapped = writable_new (JNum 0), options = passthrough_codec,
      ports = [Port1 1], subscribers = [Port1 1]\<rparr>"

definition passthrough_replica :: replicated_store where
  "passthrough_replica =
     \<lparr>store_id = ''s'', wrapped = writable_new (JNum 0), options = passthrough_codec,
      upstream = Some (Port2 1), numSubscribers = 1\<rparr>"

definition words_primary :: primary_store where
  "words_primary =
     \<lparr>store_id = ''test'', wrapped = writable_new (JNum 7), options = words_codec,
      ports = [Port1 1], subscribers = []\<rparr>"

definition words_replica :: replicated_store where
  "words_replica =
     \<lparr>store_id = ''test'', wrapped = writable_new (JNum 0), options = words_codec,
      upstream = Some (Port2 1), numSubscribers = 1\<rparr>"

definition shared_buffer_calls :: "port \<Rightarrow> event list" where
  "shared_buffer_calls p =
     [EncodeCall shared_buffers, GetTransferablesCall shared_buffers,
      PostMessage p (set_message ''s'' shared_buffers) [ArrayBuffer 1, ArrayBuffer 1]]"

section \<open>The transferable scan\<close>

lemma getTransferables_TypedArray: "getTransferables (TypedArray b xs) = []"
  by (induction xs) auto

text \<open>
  C9. On every payload tree of arrays, plain objects and leaves, \<open>getTransferables\<close>
  returns exactly the nodes that are \<^verbatim>\<open>ArrayBuffer\<close> instances, in the order of the
  depth-first walk and with repetitions kept; a typed-array view, like every other value
  that is not a buffer, adds nothing.
\<close>

theorem getTransferables_depth_first:
  "getTransferables v = buffers_depth_first v"
  unfolding buffers_depth_first_def
proof (induction v rule: getTransferables.induct)
  case (2 vs)
  then show ?case by (simp add: filter_concat comp_def cong: map_cong)
next
  case (3 kvs)
  then show ?case by (simp add: filter_concat comp_def cong: map_cong)
next
  case (4 b xs)
  then show ?case by (simp add: getTransferables_TypedArray)
qed simp_all

section \<open>sendPayload\<close>

lemma sendLoop_map:
  "sendLoop sid payload ps tr i =
     map (\<lambda>j. PostMessage (ps ! j) (set_message sid payload)
                (if Suc j = length ps then tr else []))
         [i..<length ps]"
proof (induction sid payload ps tr i rule: sendLoop.induct)
  case (1 sid payload ps tr i)
  show ?case
  proof (cases "i < length ps")
    case True
    have "(int i = int (length ps) - 1) = (Suc i = length ps)" by auto
    with True 1 show ?thesis
      by (subst sendLoop.simps) (simp add: upt_conv_Cons)
  next
    case False
    then show ?thesis by (subst sendLoop.simps) simp
  qed
qed

lemma sendLoop_no_transfer:
  "sendLoop sid payload ps [] 0 = map (\<lambda>p. PostMessage p (set_message sid payload) []) ps"
  unfolding sendLoop_map by (rule nth_equalityI) simp_all

text \<open>
  C10. A payload sent to \<open>n > 0\<close> ports with a custom \<open>encode\<close> configured is scanned
  once, and the buffers found are the transfer list of the send to the last port (index
  \<open>n - 1\<close>) only, every earlier send having the empty transfer list. Without a custom
  \<open>encode\<close> there is no scan and every send has the empty transfer list.
\<close>

theorem sendPayload_transfer_last:
  "0 < length ps \<Longrightarrow>
     (encode opts \<noteq> None \<longrightarrow>
        sendPayload opts sid payload ps =
          GetTransferablesCall payload #
          map (\<lambda>i. PostMessage (ps ! i) (set_message sid payload)
                     (if i = length ps - 1 then getTransferables payload else []))
              [0..<length ps]) \<and>
     (encode opts = None \<longrightarrow>
        sendPayload opts sid payload ps =
          map (\<lambda>p. PostMessage p (set_message sid payload) []) ps)"
proof (intro conjI impI)
  assume n: "0 < length ps" and "encode opts \<noteq> None"
  then obtain f where f: "encode opts = Some f" by auto
  have "(\<lambda>j. PostMessage (ps ! j) (set_message sid payload)
                (if Suc j = length ps then getTransferables payload else [])) =
        (\<lambda>i. PostMessage (ps ! i) (set_message sid payload)
                (if i = length ps - 1 then getTransferables payload else []))"
    using n by (intro ext) auto
  with n f show "sendPayload opts sid payload ps =
          GetTransferablesCall payload #
          map (\<lambda>i. PostMessage (ps ! i) (set_message sid payload)
                     (if i = length ps - 1 then getTransferables payload else []))
              [0..<length ps]"
    by (simp add: sendPayload_def sendLoop_map)
next
  assume "0 < length ps" and "encode opts = None"
  then show "sendPayload opts sid payload ps =
          map (\<lambda>p. PostMessage p (set_message sid payload) []) ps"
    by (simp add: sendPayload_def sendLoop_no_transfer)
qed

theorem sendPayload_transfer_last_witness:
  "0 < length [Port1 1, Port1 2, Port1 3] \<and>
   sendPayload halving_codec ''s'' (JArray [ArrayBuffer 7, JNum 1]) [Port1 1, Port1 2, Port1 3] =
     [GetTransferablesCall (JArray [ArrayBuffer 7, JNum 1]),
      PostMessage (Port1 1) (set_message ''s'' (JArray [ArrayBuffer 7, JNum 1])) [],
      PostMessage (Port1 2) (set_message ''s'' (JArray [ArrayBuffer 7, JNum 1])) [],
      PostMessage (Port1 3) (set_message ''s'' (JArray [ArrayBuffer 7, JNum 1])) [ArrayBuffer 7]] \<and>
   sendPayload identity_codec ''s'' (JArray [ArrayBuffer 7, JNum 1]) [Port1 1, Port1 2, Port1 3] =
     [PostMessage (Port1 1) (set_message ''s'' (JArray [ArrayBuffer 7, JNum 1])) [],
      PostMessage (Port1 2) (set_message ''s'' (JArray [ArrayBuffer 7, JNum 1])) [],
      PostMessage (Port1 3) (set_message ''s'' (JArray [ArrayBuffer 7, JNum 1])) []]"
  using sendPayload_transfer_last [of "[Port1 1, Port1 2, Port1 3]" halving_codec "''s''" "JArray [ArrayBuffer 7, JNum 1]"]
    sendPayload_transfer_last [of "[Port1 1, Port1 2, Port1 3]" identity_codec "''s''" "JArray [ArrayBuffer 7, JNum 1]"]
  by (simp add: halving_codec_def identity_codec_def upt_rec)

section \<open>What the calls send\<close>

lemma posts_append: "posts (xs @ ys) = posts xs @ posts ys"
  by (induction xs rule: posts.induct) simp_all

lemma posts_sendPayload_single:
  "posts (sendPayload opts sid payload [p]) =
     [(p, set_message sid payload, case encode opts of None \<Rightarrow> [] | Some f \<Rightarrow> getTransferables payload)]"
  by (simp add: sendPayload_def sendLoop.simps [of _ _ _ _ 0] sendLoop.simps [of _ _ _ _ "Suc 0"]
      split: option.splits)

lemma posts_encodePayload: "posts (snd (encodePayload opts v)) = []"
  by (simp add: encodePayload_def split: option.splits)

lemma posts_decodePayload: "posts (snd (decodePayload opts v)) = []"
  by (simp add: decodePayload_def split: option.splits)

lemma posts_map_PostMessage:
  "posts (map (\<lambda>j. PostMessage (f j) (g j) (h j)) xs) = map (\<lambda>j. (f j, g j, h j)) xs"
  by (induction xs) simp_all

lemma posts_sendPayload:
  "posts (sendPayload opts sid payload ps) =
     map (\<lambda>j. (ps ! j, set_message sid payload,
                if Suc j = length ps
                then (case encode opts of None \<Rightarrow> [] | Some f \<Rightarrow> getTransferables payload)
                else []))
         [0..<length ps]"
  by (cases "encode opts") (simp_all add: sendPayload_def sendLoop_map posts_map_PostMessage)

lemma sent_ports_sendPayload: "sent_ports (sendPayload opts sid payload ps) = ps"
  unfolding sent_ports_def posts_sendPayload by (rule nth_equalityI) simp_all

lemma sent_messages_sendPayload:
  "sent_messages (sendPayload opts sid payload ps) =
     replicate (length ps) (set_message sid payload)"
  unfolding sent_messages_def posts_sendPayload by (rule nth_equalityI) simp_all

lemma sent_ports_append: "sent_ports (xs @ ys) = sent_ports xs @ sent_ports ys"
  by (simp add: sent_ports_def posts_append)

lemma sent_messages_append: "sent_messages (xs @ ys) = sent_messages xs @ sent_messages ys"
  by (simp add: sent_messages_def posts_append)

lemma codec_events_no_posts:
  "sent_ports (snd (encodePayload opts v)) = []"
  "sent_ports (snd (decodePayload opts v)) = []"
  "sent_messages (snd (encodePayload opts v)) = []"
  "sent_messages (snd (decodePayload opts v)) = []"
  by (simp_all add: sent_ports_def sent_messages_def posts_encodePayload posts_decodePayload)

lemma filter_codec_calls_sendPayload:
  "filter is_EncodeCall (sendPayload opts sid payload ps) = []"
  "filter is_DecodeCall (sendPayload opts sid payload ps) = []"
  by (cases "encode opts"; simp add: sendPayload_def sendLoop_map filter_empty_conv)+

lemma primary_handleMessage_set:
  assumes "msg_id m = store_id s" and "msg_type m = ''set''"
  shows "primary_handleMessage s p m =
     Inr (s\<lparr>wrapped := writable_set (wrapped s) (fst (decodePayload (options s) (payload_of m)))\<rparr>,
          snd (decodePayload (options s) (payload_of m))
          @ sendPayload (options s) (store_id s) (payload_of m)
              (filter (\<lambda>q. q \<noteq> p) (subscribers s)))"
  using assms by (simp add: primary_handleMessage_def Let_def split_beta)

lemma primary_handleMessage_subscribe:
  assumes "msg_id m = store_id s" and "msg_type m = ''subscribe''"
  shows "primary_handleMessage s p m =
     Inr (s\<lparr>subscribers := set_add (subscribers s) p\<rparr>,
          snd (encodePayload (options s) (current (wrapped s)))
          @ sendPayload (options s) (store_id s)
              (fst (encodePayload (options s) (current (wrapped s)))) [p])"
  using assms by (simp add: primary_handleMessage_def Let_def split_beta writable_get_def)

lemma primary_set_eq:
  "primary_set s v =
     Inr (s\<lparr>wrapped := writable_set (wrapped s) v\<rparr>,
          snd (encodePayload (options s) v)
          @ sendPayload (options s) (store_id s) (fst (encodePayload (options s) v))
              (subscribers s))"
  by (simp add: primary_set_def Let_def split_beta)

section \<open>Attachment misuse\<close>

lemma findIndex_ge: "- 1 \<le> findIndex P xs"
  by (induction xs) (auto simp: Let_def)

lemma findIndex_none: "(findIndex P xs = - 1) = (\<forall>x \<in> set xs. \<not> P x)"
proof (induction xs)
  case Nil
  show ?case by simp
next
  case (Cons x xs)
  from findIndex_ge [of P xs] have "findIndex P xs + 1 \<noteq> - 1" by arith
  with Cons show ?case by (auto simp: Let_def)
qed

text \<open>
  C7. \<open>detach\<close> of a port that is not attached fails with \<open>PortNotFound\<close>, on a
  primary and on a replica, and \<open>attach\<close> on a replica that is attached fails with
  \<open>AlreadyAttached\<close>; these are the only cases in which those errors are raised.
\<close>

theorem attachment_misuse_raises:
  "(primary_detach s p = Inl PortNotFound) = (p \<notin> set (ports s)) \<and>
   (replica_detach r p = Inl PortNotFound) = (upstream r \<noteq> Some p) \<and>
   (replica_attach r p start = Inl AlreadyAttached) = (upstream r \<noteq> None)"
  by (auto simp: primary_detach_def replica_detach_def replica_attach_def Let_def
      findIndex_none split: option.splits)

theorem attachment_misuse_raises_witness:
  "primary_detach fanout_primary (Port1 9) = Inl PortNotFound \<and>
   replica_detach attached_replica (Port2 5) = Inl PortNotFound \<and>
   replica_detach detached_replica (Port2 1) = Inl PortNotFound \<and>
   replica_attach attached_replica (Port2 5) True = Inl AlreadyAttached"
  using attachment_misuse_raises [of fanout_primary "Port1 9" attached_replica True]
    attachment_misuse_raises [of fanout_primary "Port2 5" attached_replica True]
    attachment_misuse_raises [of fanout_primary "Port2 1" detached_replica True]
  by (simp add: fanout_primary_def attached_replica_def detached_replica_def replica_new_def)

section \<open>Writing to a detached replica\<close>

text \<open>
  C8. On a detached replica \<open>set v\<close> returns normally, leaves \<open>v\<close> in the wrapped
  store, emits one console warning and posts nothing; \<open>update f\<close> is \<open>set\<close> of \<open>f\<close>
  applied to the current local value.
\<close>

theorem replica_set_detached:
  "upstream r = None \<Longrightarrow>
     replica_set r v =
       Inr (r\<lparr>wrapped := writable_set (wrapped r) v\<rparr>,
            [ConsoleWarn (not_attached_warning (store_id r)) v]) \<and>
     current (wrapped (r\<lparr>wrapped := writable_set (wrapped r) v\<rparr>)) = v \<and>
     posts [ConsoleWarn (not_attached_warning (store_id r)) v] = [] \<and>
     replica_update r f = replica_set r (f (current (wrapped r)))"
  by (simp add: replica_set_def replica_update_def writable_set_def writable_get_def)

theorem replica_set_detached_witness:
  "upstream detached_replica = None \<and>
   replica_set detached_replica (JNum 42) =
     Inr (detached_replica\<lparr>wrapped := writable_new (JNum 42)\<rparr>,
          [ConsoleWarn ''ReplicatedStore (s): set called but not attached, this update will be lost''
             (JNum 42)]) \<and>
   replica_update detached_replica encode_double = replica_set detached_replica (JNum 0)"
  using replica_set_detached [of detached_replica "JNum 42" encode_double]
  by (simp add: detached_replica_def replica_new_def writable_new_def writable_set_def
      not_attached_warning_def)

section \<open>The subscriber count of a replica\<close>

lemma replica_step_no_subscribe:
  assumes "numSubscribers r = 0" and "replica_step r c = Inr (r', ev)"
    and "numSubscribers r' = 0"
  shows "''subscribe'' \<notin> set (sent_types ev)"
proof (cases c)
  case (RAttach p start)
  with assms show ?thesis
    by (auto simp: replica_attach_def sent_types_def split: option.splits if_splits)
next
  case (RDetach p)
  with assms show ?thesis
    by (auto simp: replica_detach_def sent_types_def split: option.splits if_splits)
next
  case (RSet v)
  with assms show ?thesis
    by (auto simp: replica_set_def sent_types_def posts_append posts_sendPayload_single
        posts_encodePayload set_message_def Let_def split_beta split: option.splits)
next
  case (RUpdate f)
  with assms show ?thesis
    by (auto simp: replica_update_def replica_set_def sent_types_def posts_append posts_sendPayload_single
        posts_encodePayload set_message_def Let_def split_beta split: option.splits)
next
  case RSubscribe
  with assms show ?thesis
    by (auto simp: replica_subscribe_def Let_def split_beta)
next
  case (RUnsubscriber k)
  with assms show ?thesis
    by (auto simp: replica_unsubscriber_def Let_def)
next
  case (RMessage m)
  with assms show ?thesis
    by (auto simp: replica_handleMessage_def sent_types_def posts_decodePayload Let_def
        split_beta split: if_splits)
qed

text \<open>
  C6. On an attached replica the observer that takes the count from 0 to 1 sends exactly
  one \<open>subscribe\<close> upstream, and the unsubscriber that takes it from 1 to 0 sends exactly
  one \<open>unsubscribe\<close>; no call that starts and ends with the count at 0 sends a
  \<open>subscribe\<close>; and \<open>attach\<close> with the count above 0 sends one \<open>subscribe\<close> on the new
  port.
\<close>

theorem replica_reference_count_gating:
  "(upstream r = Some u \<and> numSubscribers r = 0 \<longrightarrow>
      replica_subscribe r =
        Inr ((r\<lparr>wrapped := fst (writable_subscribe (wrapped r)), numSubscribers := 1\<rparr>,
              issued (wrapped r)),
             [PostMessage u (control_message (store_id r) ''subscribe'') []])) \<and>
   (upstream r = Some u \<and> numSubscribers r = 1 \<longrightarrow>
      replica_unsubscriber r k =
        Inr (r\<lparr>wrapped := writable_unsubscribe (wrapped r) k, numSubscribers := 0\<rparr>,
             [PostMessage u (control_message (store_id r) ''unsubscribe'') []])) \<and>
   (numSubscribers r = 0 \<and> replica_step r c = Inr (r', ev) \<and> numSubscribers r' = 0 \<longrightarrow>
      ''subscribe'' \<notin> set (sent_types ev)) \<and>
   (upstream r = None \<and> numSubscribers r > 0 \<longrightarrow>
      replica_attach r p start =
        Inr (r\<lparr>upstream := Some p\<rparr>,
             AddEventListener p # (if start then [PortStart p] else [])
             @ [PostMessage p (control_message (store_id r) ''subscribe'') []]))"
proof (intro conjI impI)
  assume "upstream r = Some u \<and> numSubscribers r = 0"
  then show "replica_subscribe r =
        Inr ((r\<lparr>wrapped := fst (writable_subscribe (wrapped r)), numSubscribers := 1\<rparr>,
              issued (wrapped r)),
             [PostMessage u (control_message (store_id r) ''subscribe'') []])"
    by (simp add: replica_subscribe_def writable_subscribe_def)
next
  assume "upstream r = Some u \<and> numSubscribers r = 1"
  then show "replica_unsubscriber r k =
        Inr (r\<lparr>wrapped := writable_unsubscribe (wrapped r) k, numSubscribers := 0\<rparr>,
             [PostMessage u (control_message (store_id r) ''unsubscribe'') []])"
    by (simp add: replica_unsubscriber_def)
next
  assume "numSubscribers r = 0 \<and> replica_step r c = Inr (r', ev) \<and> numSubscribers r' = 0"
  then show "''subscribe'' \<notin> set (sent_types ev)"
    using replica_step_no_subscribe by blast
next
  assume "upstream r = None \<and> numSubscribers r > 0"
  then show "replica_attach r p start =
        Inr (r\<lparr>upstream := Some p\<rparr>,
             AddEventListener p # (if start then [PortStart p] else [])
             @ [PostMessage p (control_message (store_id r) ''subscribe'') []])"
    by (simp add: replica_attach_def)
qed

theorem replica_reference_count_gating_witness:
  "replica_subscribe attached_replica =
     Inr ((attached_replica
             \<lparr>wrapped := \<lparr>current = JNum 0, observers = [0], issued = 1\<rparr>,
              numSubscribers := 1\<rparr>, 0),
          [PostMessage (Port2 1) (control_message ''s'' ''subscribe'') []]) \<and>
   replica_unsubscriber (attached_replica\<lparr>numSubscribers := 1\<rparr>) 0 =
     Inr (attached_replica,
          [PostMessage (Port2 1) (control_message ''s'' ''unsubscribe'') []]) \<and>
   replica_step attached_replica (RSet (JNum 5)) =
     Inr (attached_replica\<lparr>wrapped := writable_new (JNum 5)\<rparr>,
          [PostMessage (Port2 1) (set_message ''s'' (JNum 5)) []]) \<and>
   ''subscribe'' \<notin> set (sent_types [PostMessage (Port2 1) (set_message ''s'' (JNum 5)) []]) \<and>
   replica_attach (detached_replica\<lparr>numSubscribers := 2\<rparr>) (Port2 1) True =
     Inr (attached_replica\<lparr>numSubscribers := 2\<rparr>,
          [AddEventListener (Port2 1), PortStart (Port2 1),
           PostMessage (Port2 1) (control_message ''s'' ''subscribe'') []])"
proof -
  have step: "replica_step attached_replica (RSet (JNum 5)) =
     Inr (attached_replica\<lparr>wrapped := writable_new (JNum 5)\<rparr>,
          [PostMessage (Port2 1) (set_message ''s'' (JNum 5)) []])"
    by (simp add: attached_replica_def detached_replica_def replica_new_def replica_set_def
        identity_codec_def encodePayload_def sendPayload_def writable_set_def writable_new_def
        sendLoop.simps [of _ _ _ _ 0] sendLoop.simps [of _ _ _ _ "Suc 0"])
  have count: "numSubscribers attached_replica = 0"
    "numSubscribers (attached_replica\<lparr>wrapped := writable_new (JNum 5)\<rparr>) = 0"
    "upstream attached_replica = Some (Port2 1)"
    by (simp_all add: attached_replica_def detached_replica_def replica_new_def)
  from replica_reference_count_gating
         [of attached_replica "Port2 1" 0 "RSet (JNum 5)"
             "attached_replica\<lparr>wrapped := writable_new (JNum 5)\<rparr>"
             "[PostMessage (Port2 1) (set_message ''s'' (JNum 5)) []]" "Port2 1" True]
       replica_reference_count_gating
         [of "attached_replica\<lparr>numSubscribers := 1\<rparr>" "Port2 1" 0]
       replica_reference_count_gating
         [of "detached_replica\<lparr>numSubscribers := 2\<rparr>" "Port2 1" 0 _ _ _ "Port2 1" True]
       step count
  show ?thesis
    by (simp add: attached_replica_def detached_replica_def replica_new_def
        writable_subscribe_def writable_unsubscribe_def writable_new_def)
qed

text \<open>
  As long as no closure is invoked a second time, the count is the number of observers
  registered on the wrapped store, under every call.
\<close>

lemma length_removeAll_distinct:
  "distinct xs \<Longrightarrow> k \<in> set xs \<Longrightarrow> int (length (removeAll k xs)) = int (length xs) - 1"
  by (induction xs) auto

lemma replica_step_count_matches:
  assumes "count_matches_observers r" and "first_invocation r c"
    and "replica_step r c = Inr (r', ev)"
  shows "count_matches_observers r'"
proof (cases c)
  case (RAttach p start)
  with assms show ?thesis
    by (auto simp: replica_attach_def count_matches_observers_def split: option.splits)
next
  case (RDetach p)
  with assms show ?thesis
    by (auto simp: replica_detach_def count_matches_observers_def split: option.splits if_splits)
next
  case (RSet v)
  with assms show ?thesis
    by (auto simp: replica_set_def count_matches_observers_def writable_set_def Let_def
        split_beta split: option.splits)
next
  case (RUpdate f)
  with assms show ?thesis
    by (auto simp: replica_update_def replica_set_def count_matches_observers_def
        writable_set_def Let_def split_beta split: option.splits)
next
  case RSubscribe
  with assms show ?thesis
    by (auto simp: replica_subscribe_def count_matches_observers_def writable_subscribe_def
        Let_def split_beta less_Suc_eq)
next
  case (RUnsubscriber k)
  with assms show ?thesis
    by (auto simp: replica_unsubscriber_def count_matches_observers_def
        writable_unsubscribe_def Let_def length_removeAll_distinct distinct_removeAll)
next
  case (RMessage m)
  with assms show ?thesis
    by (auto simp: replica_handleMessage_def count_matches_observers_def writable_set_def
        Let_def split_beta split: if_splits)
qed

text \<open>
  C5. The count is meant to stay at or above 0 under every sequence of \<open>subscribe\<close> calls
  and invocations of the closures they return. The closure decrements on every
  invocation, so invoking one closure twice takes the count of a fresh replica to \<open>-1\<close>,
  with no observer left on the wrapped store.
\<close>

theorem repeated_unsubscriber_negative_count:
  "map_option (\<lambda>(r, ev). (numSubscribers r, observers (wrapped r), sent_types ev))
     (replica_run (replica_new ''s'' (writable_new (JNum 0)) identity_codec)
        [RAttach (Port2 1) True, RSubscribe, RUnsubscriber 0, RUnsubscriber 0]) =
   Some (- 1, [], [''subscribe'', ''unsubscribe''])"
  by (simp add: replica_new_def writable_new_def replica_attach_def replica_subscribe_def
      replica_unsubscriber_def writable_subscribe_def writable_unsubscribe_def
      control_message_def sent_types_def)

section \<open>Fan-out on the primary\<close>

text \<open>
  C2, as the code has it. An inbound \<open>set\<close> with the store's id from port \<open>p\<close> is
  decoded, the decoded value is stored, and the payload that came in is sent on
  unchanged, as a \<open>set\<close> envelope, to every subscribed port except \<open>p\<close>. The decode hook,
  when there is one, is called once; the encode hook is not called.
\<close>

theorem primary_forwards_inbound_payload:
  "msg_id m = store_id s \<and> msg_type m = ''set'' \<longrightarrow>
     (\<exists>ev. primary_handleMessage s p m =
             Inr (s\<lparr>wrapped := writable_set (wrapped s)
                       (fst (decodePayload (options s) (payload_of m)))\<rparr>, ev) \<and>
           sent_ports ev = filter (\<lambda>q. q \<noteq> p) (subscribers s) \<and>
           sent_messages ev =
             replicate (length (filter (\<lambda>q. q \<noteq> p) (subscribers s)))
               (set_message (store_id s) (payload_of m)) \<and>
           filter is_EncodeCall ev = [] \<and>
           filter is_DecodeCall ev =
             (case decode (options s) of None \<Rightarrow> [] | Some f \<Rightarrow> [DecodeCall (payload_of m)]))"
proof (intro impI, elim conjE)
  assume a: "msg_id m = store_id s" "msg_type m = ''set''"
  let ?ev = "snd (decodePayload (options s) (payload_of m))
          @ sendPayload (options s) (store_id s) (payload_of m)
              (filter (\<lambda>q. q \<noteq> p) (subscribers s))"
  have 1: "sent_ports ?ev = filter (\<lambda>q. q \<noteq> p) (subscribers s)"
    by (simp add: sent_ports_append codec_events_no_posts sent_ports_sendPayload)
  have 2: "sent_messages ?ev = replicate (length (filter (\<lambda>q. q \<noteq> p) (subscribers s)))
               (set_message (store_id s) (payload_of m))"
    by (simp add: sent_messages_append codec_events_no_posts sent_messages_sendPayload)
  have 3: "filter is_EncodeCall ?ev = []"
    by (simp add: filter_codec_calls_sendPayload decodePayload_def split: option.splits)
  have 4: "filter is_DecodeCall ?ev =
             (case decode (options s) of None \<Rightarrow> [] | Some f \<Rightarrow> [DecodeCall (payload_of m)])"
    by (simp add: filter_codec_calls_sendPayload decodePayload_def split: option.splits)
  from primary_handleMessage_set [OF a, of p] 1 2 3 4
  show "\<exists>ev. primary_handleMessage s p m =
             Inr (s\<lparr>wrapped := writable_set (wrapped s)
                       (fst (decodePayload (options s) (payload_of m)))\<rparr>, ev) \<and>
           sent_ports ev = filter (\<lambda>q. q \<noteq> p) (subscribers s) \<and>
           sent_messages ev =
             replicate (length (filter (\<lambda>q. q \<noteq> p) (subscribers s)))
               (set_message (store_id s) (payload_of m)) \<and>
           filter is_EncodeCall ev = [] \<and>
           filter is_DecodeCall ev =
             (case decode (options s) of None \<Rightarrow> [] | Some f \<Rightarrow> [DecodeCall (payload_of m)])"
    by blast
qed

theorem primary_forwards_inbound_payload_witness:
  "msg_id (set_message ''s'' (JNum 3)) = store_id fanout_primary \<and>
   msg_type (set_message ''s'' (JNum 3)) = ''set'' \<and>
   (\<exists>ev. primary_handleMessage fanout_primary (Port1 1) (set_message ''s'' (JNum 3)) =
           Inr (fanout_primary\<lparr>wrapped := writable_new (JNum 1)\<rparr>, ev) \<and>
         sent_ports ev = [Port1 2, Port1 3] \<and>
         sent_messages ev = [set_message ''s'' (JNum 3), set_message ''s'' (JNum 3)] \<and>
         filter is_EncodeCall ev = [] \<and>
         filter is_DecodeCall ev = [DecodeCall (JNum 3)])"
  using primary_forwards_inbound_payload
          [of "set_message ''s'' (JNum 3)" fanout_primary "Port1 1"]
  by (simp add: fanout_primary_def set_message_def payload_of_def decodePayload_def
      halving_codec_def writable_set_def writable_new_def numeral_2_eq_2)

text \<open>
  C2, as stated, fails: a codec with \<open>decode (encode v) = v\<close> need not have
  \<open>encode (decode p) = p\<close>. With the halving codec the payload 3 decodes to 1, which
  encodes to 2; the primary sends 3 on, and calls no encode.
\<close>

theorem primary_reencodes_counterexample:
  "primary_handleMessage fanout_primary (Port1 1) (set_message ''s'' (JNum 3)) =
     Inr (fanout_primary\<lparr>wrapped := writable_new (JNum 1)\<rparr>,
          [DecodeCall (JNum 3), GetTransferablesCall (JNum 3),
           PostMessage (Port1 2) (set_message ''s'' (JNum 3)) [],
           PostMessage (Port1 3) (set_message ''s'' (JNum 3)) []]) \<and>
   fst (encodePayload halving_codec (JNum 1)) = JNum 2 \<and>
   set_message ''s'' (JNum 3) \<noteq> set_message ''s'' (fst (encodePayload halving_codec (JNum 1))) \<and>
   fst (decodePayload halving_codec (fst (encodePayload halving_codec (JNum 1)))) = JNum 1"
  by (simp add: primary_handleMessage_def fanout_primary_def set_message_def payload_of_def
      decodePayload_def encodePayload_def halving_codec_def writable_set_def writable_new_def
      sendPayload_def sendLoop.simps [of _ _ _ _ 0] sendLoop.simps [of _ _ _ _ "Suc 0"]
      sendLoop.simps [of _ _ _ _ "Suc (Suc 0)"] Let_def)

lemma distinct_set_add: "distinct xs \<Longrightarrow> distinct (set_add xs x)"
  by (simp add: set_add_def)

lemma distinct_set_delete: "distinct xs \<Longrightarrow> distinct (set_delete xs x)"
  by (simp add: set_delete_def distinct_removeAll)

lemma primary_step_distinct:
  assumes "distinct (subscribers s)" and "primary_step s c = Inr (s', ev)"
  shows "distinct (subscribers s')"
proof (cases c)
  case (PAttach p start)
  with assms show ?thesis by (auto simp: primary_attach_def)
next
  case (PDetach p)
  with assms show ?thesis
    by (auto simp: primary_detach_def Let_def distinct_set_delete split: if_splits)
next
  case (PSet v)
  with assms show ?thesis by (auto simp: primary_set_eq)
next
  case (PUpdate f)
  with assms show ?thesis by (auto simp: primary_update_def)
next
  case PSubscribe
  with assms show ?thesis by (auto simp: primary_subscribe_def split_beta)
next
  case (PMessage p m)
  with assms show ?thesis
    by (auto simp: primary_handleMessage_def Let_def split_beta distinct_set_add
        distinct_set_delete split: if_splits)
qed

lemma primary_reachable_distinct: "primary_reachable s \<Longrightarrow> distinct (subscribers s)"
proof (induction rule: primary_reachable.induct)
  case (reachable_new sid w opts)
  show ?case by (simp add: primary_new_def)
next
  case (reachable_step s c s' ev)
  then show ?case using primary_step_distinct by blast
qed

lemma primary_run_reachable:
  "primary_reachable s \<Longrightarrow> primary_run s cs = Some (s', ev) \<Longrightarrow> primary_reachable s'"
proof (induction cs arbitrary: s ev)
  case Nil
  then show ?case by simp
next
  case (Cons c cs)
  show ?case
  proof (cases "primary_step s c")
    case (Inl e)
    with Cons show ?thesis by (auto split: if_splits)
  next
    case (Inr x)
    obtain s1 ev1 where x: "x = (s1, ev1)" by (cases x)
    from Cons.prems Inr x have en: "primary_enabled s c" by (auto split: if_splits)
    with Cons.prems(1) Inr x have "primary_reachable s1"
      by (auto intro: reachable_step)
    with Cons.IH Cons.prems(2) Inr x en show ?thesis
      by (auto split: if_splits option.splits)
  qed
qed

lemma fanout_primary_reachable: "primary_reachable fanout_primary"
proof -
  let ?s0 = "primary_new ''s'' (writable_new (JNum 0)) halving_codec"
  let ?sub = "control_message ''s'' ''subscribe''"
  let ?cs = "[PAttach (Port1 1) True, PAttach (Port1 2) True, PAttach (Port1 3) True,
              PMessage (Port1 1) ?sub, PMessage (Port1 2) ?sub, PMessage (Port1 3) ?sub]"
  have "map_option fst (primary_run ?s0 ?cs) = Some fanout_primary"
    by (simp add: primary_new_def fanout_primary_def primary_attach_def
        primary_handleMessage_def control_message_def set_add_def Let_def split_beta)
  then obtain ev where "primary_run ?s0 ?cs = Some (fanout_primary, ev)"
    by (cases "primary_run ?s0 ?cs") auto
  with reachable_new show ?thesis by (rule primary_run_reachable)
qed

text \<open>
  C3. In every reachable state of a primary, the fan-out on receipt of a \<open>set\<close> envelope
  from port \<open>p\<close> goes to the subscribed ports other than \<open>p\<close>, each once and never to
  \<open>p\<close>; the fan-out of a local \<open>set\<close> goes to all subscribed ports, each once.
\<close>

theorem fanout_targets:
  "primary_reachable s \<Longrightarrow>
     (msg_id m = store_id s \<and> msg_type m = ''set'' \<longrightarrow>
        (\<exists>s' ev. primary_handleMessage s p m = Inr (s', ev) \<and>
           sent_ports ev = filter (\<lambda>q. q \<noteq> p) (subscribers s) \<and>
           set (sent_ports ev) = set (subscribers s) - {p} \<and>
           distinct (sent_ports ev))) \<and>
     (\<exists>s' ev. primary_set s v = Inr (s', ev) \<and>
        sent_ports ev = subscribers s \<and> distinct (sent_ports ev))"
proof (intro conjI impI)
  assume r: "primary_reachable s"
  then have d: "distinct (subscribers s)" by (rule primary_reachable_distinct)
  {
    assume "msg_id m = store_id s \<and> msg_type m = ''set''"
    then have a: "msg_id m = store_id s" "msg_type m = ''set''" by simp_all
    let ?ev = "snd (decodePayload (options s) (payload_of m))
          @ sendPayload (options s) (store_id s) (payload_of m)
              (filter (\<lambda>q. q \<noteq> p) (subscribers s))"
    have 1: "sent_ports ?ev = filter (\<lambda>q. q \<noteq> p) (subscribers s)"
      by (simp add: sent_ports_append codec_events_no_posts sent_ports_sendPayload)
    have 2: "set (sent_ports ?ev) = set (subscribers s) - {p}"
      unfolding 1 by auto
    have 3: "distinct (sent_ports ?ev)"
      unfolding 1 using d by simp
    from primary_handleMessage_set [OF a, of p] 1 2 3
    show "\<exists>s' ev. primary_handleMessage s p m = Inr (s', ev) \<and>
           sent_ports ev = filter (\<lambda>q. q \<noteq> p) (subscribers s) \<and>
           set (sent_ports ev) = set (subscribers s) - {p} \<and>
           distinct (sent_ports ev)"
      by blast
  }
  let ?ev = "snd (encodePayload (options s) v)
          @ sendPayload (options s) (store_id s) (fst (encodePayload (options s) v))
              (subscribers s)"
  have "sent_ports ?ev = subscribers s"
    by (simp add: sent_ports_append codec_events_no_posts sent_ports_sendPayload)
  with d primary_set_eq [of s v]
  show "\<exists>s' ev. primary_set s v = Inr (s', ev) \<and>
        sent_ports ev = subscribers s \<and> distinct (sent_ports ev)"
    by simp
qed

theorem fanout_targets_witness:
  "primary_reachable fanout_primary \<and>
   (\<exists>s' ev. primary_handleMessage fanout_primary (Port1 1) (set_message ''s'' (JNum 3)) =
              Inr (s', ev) \<and> sent_ports ev = [Port1 2, Port1 3]) \<and>
   (\<exists>s' ev. primary_set fanout_primary (JNum 4) = Inr (s', ev) \<and>
              sent_ports ev = [Port1 1, Port1 2, Port1 3])"
proof -
  have f: "subscribers fanout_primary = [Port1 1, Port1 2, Port1 3]"
    "store_id fanout_primary = ''s''"
    by (simp_all add: fanout_primary_def)
  from fanout_targets [OF fanout_primary_reachable, of "set_message ''s'' (JNum 3)" "Port1 1" "JNum 4"]
    f fanout_primary_reachable
  show ?thesis by (auto simp: set_message_def)
qed

section \<open>What the transport delivers\<close>

lemma post_calls_on_posts:
  "post_calls_on p ev = map (\<lambda>(q, m, tr). m) (filter (\<lambda>(q, m, tr). q = p) (posts ev))"
  by (induction p ev rule: post_calls_on.induct) simp_all

lemma post_calls_on_append: "post_calls_on p (xs @ ys) = post_calls_on p xs @ post_calls_on p ys"
  by (simp add: post_calls_on_posts posts_append)

lemma post_calls_on_codec:
  "post_calls_on p (snd (encodePayload opts v)) = []"
  "post_calls_on p (snd (decodePayload opts v)) = []"
  by (simp_all add: post_calls_on_posts posts_encodePayload posts_decodePayload)

lemma same_message_posts:
  "\<forall>x \<in> set P. fst (snd x) = msg \<Longrightarrow>
     map (\<lambda>(q, m, tr). m) (filter (\<lambda>(q, m, tr). q = p) P) =
       replicate (count_list (map fst P) p) msg"
  by (induction P) auto

lemma post_calls_on_sendPayload:
  "post_calls_on p (sendPayload opts sid payload ps) =
     replicate (count_list ps p) (set_message sid payload)"
proof -
  let ?P = "posts (sendPayload opts sid payload ps)"
  have "\<forall>x \<in> set ?P. fst (snd x) = set_message sid payload"
    by (auto simp: posts_sendPayload)
  from same_message_posts [OF this, of p] sent_ports_sendPayload [of opts sid payload ps]
  show ?thesis by (simp add: post_calls_on_posts sent_ports_def)
qed

lemma count_list_filter_other:
  "q \<noteq> p \<Longrightarrow> count_list (filter (\<lambda>x. x \<noteq> p) xs) q = count_list xs q"
  by (induction xs) auto

lemma count_list_filter_self: "count_list (filter (\<lambda>x. x \<noteq> p) xs) p = 0"
  by (induction xs) auto

lemma count_list_pos: "x \<in> set xs \<Longrightarrow> 0 < count_list xs x"
  by (induction xs) auto

lemma transmit_skip:
  "posts xs = [] \<Longrightarrow> transmit D (xs @ ys) = transmit D ys"
  by (induction xs rule: posts.induct) simp_all

lemma post_throws_copy:
  "\<not> post_throws D m tr \<Longrightarrow> \<not> post_throws D m []"
  by (simp add: post_throws_def)

lemma transmit_sendLoop:
  "\<not> post_throws D (set_message sid payload) tr \<Longrightarrow>
   transmit D (sendLoop sid payload ps tr i) =
     (map (\<lambda>q. (q, set_message sid payload)) (drop i ps),
      (if i < length ps then D \<union> set (buffer_ids tr) else D), False)"
proof (induction sid payload ps tr i rule: sendLoop.induct)
  case (1 sid payload ps tr i)
  show ?case
  proof (cases "i < length ps")
    case False
    then show ?thesis by (subst sendLoop.simps) simp
  next
    case True
    note d = Cons_nth_drop_Suc [OF True, symmetric]
    show ?thesis
    proof (cases "Suc i = length ps")
      case last: True
      then have "sendLoop sid payload ps tr (Suc i) = []"
        by (subst sendLoop.simps) simp
      with True last "1.prems" show ?thesis
        by (subst sendLoop.simps) (simp add: d)
    next
      case False
      with True have more: "Suc i < length ps" by simp
      from "1.IH" [OF True "1.prems"] more
      have "transmit D (sendLoop sid payload ps tr (Suc i)) =
         (map (\<lambda>q. (q, set_message sid payload)) (drop (Suc i) ps),
          D \<union> set (buffer_ids tr), False)"
        by simp
      with True False post_throws_copy [OF "1.prems"] show ?thesis
        by (subst sendLoop.simps) (simp add: d)
    qed
  qed
qed

lemma transmit_sendPayload:
  assumes "\<not> post_throws D (set_message sid payload)
             (case encode opts of None \<Rightarrow> [] | Some f \<Rightarrow> getTransferables payload)"
  shows "transmit D (sendPayload opts sid payload ps) =
     (map (\<lambda>q. (q, set_message sid payload)) ps,
      (if ps = [] then D
       else D \<union> set (buffer_ids
              (case encode opts of None \<Rightarrow> [] | Some f \<Rightarrow> getTransferables payload))),
      False)"
proof (cases "encode opts")
  case None
  with assms transmit_sendLoop [of D sid payload "[]" ps 0] show ?thesis
    by (auto simp: sendPayload_def)
next
  case (Some f)
  with assms transmit_sendLoop [of D sid payload "getTransferables payload" ps 0] show ?thesis
    by (auto simp: sendPayload_def)
qed

lemma delivered_on_sendPayload:
  assumes "\<not> post_throws D (set_message sid payload)
             (case encode opts of None \<Rightarrow> [] | Some f \<Rightarrow> getTransferables payload)"
  shows "delivered_on D p (sendPayload opts sid payload ps) =
     replicate (count_list ps p) (set_message sid payload)"
proof -
  have "map snd (filter (\<lambda>(q, m). q = p) (map (\<lambda>q. (q, msg)) qs)) =
      replicate (count_list qs p) msg" for qs :: "port list" and msg :: channel_message
    by (induction qs) auto
  with transmit_sendPayload [OF assms, of ps] show ?thesis
    by (simp add: delivered_on_def)
qed

lemma delivered_on_skip:
  "posts xs = [] \<Longrightarrow> delivered_on D p (xs @ ys) = delivered_on D p ys"
  by (simp add: delivered_on_def transmit_skip)

lemma replica_handleMessage_set:
  "store_id r = sid \<Longrightarrow>
     replica_handleMessage r (set_message sid payload) =
       Inr (r\<lparr>wrapped := writable_set (wrapped r) (fst (decodePayload (options r) payload))\<rparr>,
            snd (decodePayload (options r) payload))"
  by (simp add: replica_handleMessage_def set_message_def payload_of_def split_beta)

lemma replica_handle_all_replicate:
  "store_id r = sid \<Longrightarrow> 0 < n \<Longrightarrow>
     current (wrapped (replica_handle_all r (replicate n (set_message sid payload)))) =
       fst (decodePayload (options r) payload)"
proof (induction n arbitrary: r)
  case 0
  then show ?case by simp
next
  case (Suc n)
  let ?r1 = "r\<lparr>wrapped := writable_set (wrapped r) (fst (decodePayload (options r) payload))\<rparr>"
  show ?case
  proof (cases n)
    case 0
    with Suc.prems show ?thesis
      by (simp add: replica_handleMessage_set writable_set_def)
  next
    case (Suc k)
    with Suc.IH [of ?r1] Suc.prems show ?thesis
      by (simp add: replica_handleMessage_set)
  qed
qed

section \<open>Catch-up on subscribe\<close>

lemma primary_step_silent:
  assumes "p \<notin> set (subscribers s)" and "\<not> is_subscribe_from p (store_id s) c"
    and "primary_step s c = Inr (s', ev)"
  shows "post_calls_on p ev = [] \<and> p \<notin> set (subscribers s') \<and> store_id s' = store_id s"
proof (cases c)
  case (PAttach q start)
  with assms show ?thesis by (auto simp: primary_attach_def)
next
  case (PDetach q)
  with assms show ?thesis
    by (auto simp: primary_detach_def Let_def set_delete_def split: if_splits)
next
  case (PSet v)
  with assms show ?thesis
    by (auto simp: primary_set_eq post_calls_on_append post_calls_on_codec post_calls_on_sendPayload)
next
  case (PUpdate f)
  with assms show ?thesis by (auto simp: primary_update_def)
next
  case PSubscribe
  with assms show ?thesis by (auto simp: primary_subscribe_def split_beta)
next
  case (PMessage q m)
  show ?thesis
  proof (cases "msg_id m = store_id s")
    case False
    with assms PMessage show ?thesis by (simp add: primary_handleMessage_def)
  next
    case True
    consider (set) "msg_type m = ''set''" | (sub) "msg_type m = ''subscribe''"
      | (unsub) "msg_type m = ''unsubscribe''"
      | (other) "msg_type m \<noteq> ''set''" "msg_type m \<noteq> ''subscribe''"
          "msg_type m \<noteq> ''unsubscribe''"
      by blast
    then show ?thesis
    proof cases
      case set
      with assms PMessage True show ?thesis
        by (auto simp: primary_handleMessage_set post_calls_on_append post_calls_on_codec
            post_calls_on_sendPayload)
    next
      case sub
      with assms PMessage True have "q \<noteq> p" by auto
      with assms PMessage True sub show ?thesis
        by (auto simp: primary_handleMessage_subscribe post_calls_on_append post_calls_on_codec
            post_calls_on_sendPayload set_add_def split: if_splits)
    next
      case unsub
      with assms PMessage True show ?thesis
        by (auto simp: primary_handleMessage_def set_delete_def)
    next
      case other
      with assms PMessage True show ?thesis
        by (auto simp: primary_handleMessage_def)
    qed
  qed
qed

lemma primary_run_silent:
  "p \<notin> set (subscribers s) \<Longrightarrow> \<forall>c \<in> set cs. \<not> is_subscribe_from p (store_id s) c \<Longrightarrow>
   primary_run s cs = Some (s', ev) \<Longrightarrow>
   post_calls_on p ev = [] \<and> p \<notin> set (subscribers s') \<and> store_id s' = store_id s"
proof (induction cs arbitrary: s ev)
  case Nil
  then show ?case by simp
next
  case (Cons c cs)
  show ?case
  proof (cases "primary_step s c")
    case (Inl e)
    with Cons.prems have "primary_run s cs = Some (s', ev)" by (auto split: if_splits)
    with Cons.IH [of s ev] Cons.prems show ?thesis by simp
  next
    case (Inr x)
    obtain s1 ev1 where x: "x = (s1, ev1)" by (cases x)
    with Inr Cons.prems obtain ev2 where
      run: "primary_run s1 cs = Some (s', ev2)" and ev: "ev = ev1 @ ev2"
      by (auto split: if_splits option.splits)
    from Cons.prems Inr x have silent:
      "post_calls_on p ev1 = [] \<and> p \<notin> set (subscribers s1) \<and> store_id s1 = store_id s"
      by (intro primary_step_silent [of p s c]) auto
    with Cons.IH [of s1 ev2] Cons.prems(2) run
    have "post_calls_on p ev2 = [] \<and> p \<notin> set (subscribers s') \<and> store_id s' = store_id s1"
      by simp
    with silent ev show ?thesis by (simp add: post_calls_on_append)
  qed
qed

text \<open>
  C4, as the code has it. An inbound \<open>subscribe\<close> with the store's id from port \<open>p\<close> puts
  \<open>p\<close> into the subscription set and makes exactly one \<^verbatim>\<open>postMessage\<close> call, on \<open>p\<close>, with
  a \<open>set\<close> envelope that carries the encoding of the current value. No sequence of calls
  without such a \<open>subscribe\<close> makes a \<^verbatim>\<open>postMessage\<close> call on a port that is not
  subscribed, so that envelope is the first one for a fresh replica, whether or not the
  primary ever called \<open>set\<close>. When the call does not throw, the envelope is delivered,
  and the replica that handles it holds \<open>decode (encode current)\<close>: the primary's current
  value if the codec gives that value back, another value if it does not.
\<close>

theorem subscribe_catch_up:
  "(p \<notin> set (subscribers s0) \<and> primary_run s0 cs = Some (s, ev0) \<and>
    (\<forall>c \<in> set cs. \<not> is_subscribe_from p (store_id s0) c) \<longrightarrow>
      post_calls_on p ev0 = [] \<and> p \<notin> set (subscribers s)) \<and>
   (msg_id m = store_id s \<and> msg_type m = ''subscribe'' \<longrightarrow>
      (\<exists>ev. primary_handleMessage s p m =
              Inr (s\<lparr>subscribers := set_add (subscribers s) p\<rparr>, ev) \<and>
            p \<in> set (set_add (subscribers s) p) \<and>
            posts ev =
              [(p, set_message (store_id s) (fst (encodePayload (options s) (current (wrapped s)))),
                case encode (options s) of
                  None \<Rightarrow> []
                | Some f \<Rightarrow> getTransferables (fst (encodePayload (options s) (current (wrapped s)))))] \<and>
            (\<not> post_throws D
                 (set_message (store_id s) (fst (encodePayload (options s) (current (wrapped s)))))
                 (case encode (options s) of
                    None \<Rightarrow> []
                  | Some f \<Rightarrow> getTransferables (fst (encodePayload (options s) (current (wrapped s))))) \<longrightarrow>
               \<not> threw D ev \<and>
               delivered_on D p ev =
                 [set_message (store_id s) (fst (encodePayload (options s) (current (wrapped s))))] \<and>
               (\<forall>r. store_id r = store_id s \<and> upstream r = Some (peer p) \<longrightarrow>
                  current (wrapped (replica_receive r (peer p) (delivered_on D p ev))) =
                    fst (decodePayload (options r)
                           (fst (encodePayload (options s) (current (wrapped s)))))))))"
proof (intro conjI impI)
  assume "p \<notin> set (subscribers s0) \<and> primary_run s0 cs = Some (s, ev0) \<and>
    (\<forall>c \<in> set cs. \<not> is_subscribe_from p (store_id s0) c)"
  then show "post_calls_on p ev0 = []" and "p \<notin> set (subscribers s)"
    using primary_run_silent [of p s0 cs s ev0] by simp_all
next
  assume "msg_id m = store_id s \<and> msg_type m = ''subscribe''"
  then have a: "msg_id m = store_id s" "msg_type m = ''subscribe''" by simp_all
  let ?payload = "fst (encodePayload (options s) (current (wrapped s)))"
  let ?msg = "set_message (store_id s) ?payload"
  let ?T = "case encode (options s) of None \<Rightarrow> [] | Some f \<Rightarrow> getTransferables ?payload"
  let ?ev = "snd (encodePayload (options s) (current (wrapped s)))
          @ sendPayload (options s) (store_id s) ?payload [p]"
  have 1: "p \<in> set (set_add (subscribers s) p)" by (simp add: set_add_def)
  have 2: "posts ?ev = [(p, ?msg, ?T)]"
    by (simp add: posts_append posts_encodePayload posts_sendPayload_single)
  have 3: "\<not> threw D ?ev \<and> delivered_on D p ?ev = [?msg] \<and>
      (\<forall>r. store_id r = store_id s \<and> upstream r = Some (peer p) \<longrightarrow>
         current (wrapped (replica_receive r (peer p) (delivered_on D p ?ev))) =
           fst (decodePayload (options r) ?payload))"
    if ok: "\<not> post_throws D ?msg ?T"
  proof -
    have t: "transmit D ?ev = ([(p, ?msg)], D \<union> set (buffer_ids ?T), False)"
      using transmit_sendPayload [OF ok, of "[p]"]
      by (simp add: transmit_skip posts_encodePayload)
    then have d: "delivered_on D p ?ev = [?msg]" by (simp add: delivered_on_def)
    have "current (wrapped (replica_receive r (peer p) [?msg])) =
        fst (decodePayload (options r) ?payload)"
      if "store_id r = store_id s \<and> upstream r = Some (peer p)" for r
      using that replica_handle_all_replicate [of r "store_id s" "Suc 0" ?payload]
      by (simp add: replica_receive_def)
    with t d show ?thesis by (simp add: threw_def)
  qed
  from primary_handleMessage_subscribe [OF a, of p] 1 2 3
  show "\<exists>ev. primary_handleMessage s p m =
              Inr (s\<lparr>subscribers := set_add (subscribers s) p\<rparr>, ev) \<and>
            p \<in> set (set_add (subscribers s) p) \<and>
            posts ev = [(p, ?msg, ?T)] \<and>
            (\<not> post_throws D ?msg ?T \<longrightarrow>
               \<not> threw D ev \<and>
               delivered_on D p ev = [?msg] \<and>
               (\<forall>r. store_id r = store_id s \<and> upstream r = Some (peer p) \<longrightarrow>
                  current (wrapped (replica_receive r (peer p) (delivered_on D p ev))) =
                    fst (decodePayload (options r) ?payload)))"
    by blast
qed

theorem subscribe_catch_up_witness:
  "Port1 1 \<notin> set (subscribers fresh_primary) \<and>
   primary_run fresh_primary [PAttach (Port1 1) True, PSet (JNum 8), PUpdate encode_double] =
     Some (fresh_primary\<lparr>wrapped := writable_new (JNum 16), ports := [Port1 1]\<rparr>,
           [AddEventListener (Port1 1), PortStart (Port1 1), EncodeCall (JNum 8)]) \<and>
   post_calls_on (Port1 1)
     [AddEventListener (Port1 1), PortStart (Port1 1), EncodeCall (JNum 8)] = [] \<and>
   primary_handleMessage (fresh_primary\<lparr>wrapped := writable_new (JNum 16), ports := [Port1 1]\<rparr>)
       (Port1 1) (control_message ''s'' ''subscribe'') =
     Inr (fresh_primary\<lparr>wrapped := writable_new (JNum 16), ports := [Port1 1],
                        subscribers := [Port1 1]\<rparr>,
          [EncodeCall (JNum 16), GetTransferablesCall (JNum 32),
           PostMessage (Port1 1) (set_message ''s'' (JNum 32)) []]) \<and>
   \<not> post_throws {} (set_message ''s'' (JNum 32)) [] \<and>
   delivered_on {} (Port1 1)
     [EncodeCall (JNum 16), GetTransferablesCall (JNum 32),
      PostMessage (Port1 1) (set_message ''s'' (JNum 32)) []] = [set_message ''s'' (JNum 32)] \<and>
   current (wrapped (replica_receive halving_replica (Port2 1) [set_message ''s'' (JNum 32)])) =
     JNum 16"
proof -
  let ?s = "fresh_primary\<lparr>wrapped := writable_new (JNum 16), ports := [Port1 1]\<rparr>"
  let ?ev0 = "[AddEventListener (Port1 1), PortStart (Port1 1), EncodeCall (JNum 8)]"
  have run: "primary_run fresh_primary
      [PAttach (Port1 1) True, PSet (JNum 8), PUpdate encode_double] = Some (?s, ?ev0)"
    by (simp add: fresh_primary_def primary_new_def primary_attach_def primary_set_def
        primary_update_def writable_update_def writable_set_def writable_new_def
        encodePayload_def sendPayload_def halving_codec_def Let_def)
  have fresh: "Port1 1 \<notin> set (subscribers fresh_primary)"
    by (simp add: fresh_primary_def primary_new_def)
  have handle: "primary_handleMessage ?s (Port1 1) (control_message ''s'' ''subscribe'') =
     Inr (?s\<lparr>subscribers := [Port1 1]\<rparr>,
          [EncodeCall (JNum 16), GetTransferablesCall (JNum 32),
           PostMessage (Port1 1) (set_message ''s'' (JNum 32)) []])"
    by (simp add: fresh_primary_def primary_new_def primary_handleMessage_def
        control_message_def writable_get_def writable_new_def encodePayload_def
        sendPayload_def halving_codec_def set_add_def Let_def
        sendLoop.simps [of _ _ _ _ 0] sendLoop.simps [of _ _ _ _ "Suc 0"])
  have ok: "\<not> post_throws {} (set_message ''s'' (JNum 32)) []"
    by (simp add: post_throws_def)
  have r: "store_id halving_replica = ''s''" "upstream halving_replica = Some (Port2 1)"
    "options halving_replica = halving_codec"
    by (simp_all add: halving_replica_def replica_new_def)
  have id: "store_id ?s = ''s''" "options ?s = halving_codec"
    "current (wrapped ?s) = JNum 16" "store_id fresh_primary = ''s''"
    by (simp_all add: fresh_primary_def primary_new_def writable_new_def)
  have payload: "fst (encodePayload halving_codec (JNum 16)) = JNum 32"
    "encode halving_codec = Some encode_double"
    "getTransferables (JNum 32) = []"
    "fst (decodePayload halving_codec (JNum 32)) = JNum 16"
    by (simp_all add: halving_codec_def encodePayload_def decodePayload_def)
  note t = subscribe_catch_up
         [of "Port1 1" fresh_primary
             "[PAttach (Port1 1) True, PSet (JNum 8), PUpdate encode_double]" ?s ?ev0
             "control_message ''s'' ''subscribe''" "{}"]
  from t run fresh have silent: "post_calls_on (Port1 1) ?ev0 = []"
    by (simp add: id)
  from t obtain ev where
    ev: "primary_handleMessage ?s (Port1 1) (control_message ''s'' ''subscribe'') =
           Inr (?s\<lparr>subscribers := set_add (subscribers ?s) (Port1 1)\<rparr>, ev)"
    and after: "\<not> post_throws {} (set_message ''s'' (JNum 32)) [] \<longrightarrow>
       \<not> threw {} ev \<and> delivered_on {} (Port1 1) ev = [set_message ''s'' (JNum 32)] \<and>
       (\<forall>r. store_id r = ''s'' \<and> upstream r = Some (peer (Port1 1)) \<longrightarrow>
          current (wrapped (replica_receive r (peer (Port1 1)) (delivered_on {} (Port1 1) ev))) =
            fst (decodePayload (options r) (JNum 32)))"
    unfolding id payload by (auto simp: control_message_def id payload)
  from ev handle have ev_eq: "ev = [EncodeCall (JNum 16), GetTransferablesCall (JNum 32),
           PostMessage (Port1 1) (set_message ''s'' (JNum 32)) []]"
    by simp
  note c = mp [OF after ok]
  note d = c [THEN conjunct2, THEN conjunct1]
  note all = c [THEN conjunct2, THEN conjunct2]
  from all [rule_format, of halving_replica] r payload d
  have "current (wrapped (replica_receive halving_replica (Port2 1)
           [set_message ''s'' (JNum 32)])) = JNum 16"
    by simp
  note this d
  with ev_eq run fresh silent handle ok show ?thesis by simp
qed

text \<open>
  C4, as stated, fails: nothing makes \<open>decode\<close> undo \<open>encode\<close>. With the codec of the
  repository's test and the value 7 in a primary that never called \<open>set\<close>, the envelope
  carries \<open>boring number\<close> and the replica ends with 0.
\<close>

theorem catch_up_lossy_codec_counterexample:
  "primary_run (primary_new ''test'' (writable_new (JNum 7)) words_codec)
     [PAttach (Port1 1) True] =
     Some (words_primary, [AddEventListener (Port1 1), PortStart (Port1 1)]) \<and>
   primary_handleMessage words_primary (Port1 1) (control_message ''test'' ''subscribe'') =
     Inr (words_primary\<lparr>subscribers := [Port1 1]\<rparr>,
          [EncodeCall (JNum 7), GetTransferablesCall (JStr ''boring number''),
           PostMessage (Port1 1) (set_message ''test'' (JStr ''boring number'')) []]) \<and>
   delivered_on {} (Port1 1)
     [EncodeCall (JNum 7), GetTransferablesCall (JStr ''boring number''),
      PostMessage (Port1 1) (set_message ''test'' (JStr ''boring number'')) []] =
     [set_message ''test'' (JStr ''boring number'')] \<and>
   current (wrapped (replica_receive words_replica (Port2 1)
                       [set_message ''test'' (JStr ''boring number'')])) = JNum 0 \<and>
   current (wrapped words_primary) = JNum 7"
  by (simp add: words_primary_def words_replica_def primary_new_def primary_attach_def
      primary_handleMessage_def control_message_def set_message_def payload_of_def
      words_codec_def encodePayload_def decodePayload_def sendPayload_def set_add_def
      writable_new_def writable_get_def writable_set_def replica_receive_def
      replica_handleMessage_def delivered_on_def post_throws_def Let_def
      sendLoop.simps [of _ _ _ _ 0] sendLoop.simps [of _ _ _ _ "Suc 0"])

section \<open>Convergence\<close>

text \<open>
  C1. Every value \<open>v\<close> with \<open>decode (encode v) = v\<close> that is set on the primary should
  reach every subscribed replica, and set on a replica should reach the primary and the
  other replicas. With hooks that hand their argument back and a value that holds one
  buffer twice, \<open>getTransferables\<close> gives the buffer twice, \<open>sendPayload\<close> passes that list
  to \<^verbatim>\<open>postMessage\<close>, and the call throws: \<open>set\<close> ends in a \<^verbatim>\<open>DataCloneError\<close>, nothing is
  delivered, and the replica keeps its old value. The same happens to \<open>set\<close> on the
  replica.
\<close>

theorem set_of_shared_buffer_throws:
  "fst (decodePayload passthrough_codec (fst (encodePayload passthrough_codec shared_buffers))) =
     shared_buffers \<and>
   map_option fst
     (primary_run (primary_new ''s'' (writable_new (JNum 0)) passthrough_codec)
        [PAttach (Port1 1) True, PMessage (Port1 1) (control_message ''s'' ''subscribe'')]) =
     Some passthrough_primary \<and>
   primary_set passthrough_primary shared_buffers =
     Inr (passthrough_primary\<lparr>wrapped := writable_new shared_buffers\<rparr>,
          shared_buffer_calls (Port1 1)) \<and>
   transmit {} (shared_buffer_calls (Port1 1)) = ([], {}, True) \<and>
   current (wrapped (replica_receive passthrough_replica (Port2 1)
                       (delivered_on {} (Port1 1) (shared_buffer_calls (Port1 1))))) = JNum 0 \<and>
   replica_set passthrough_replica shared_buffers =
     Inr (passthrough_replica\<lparr>wrapped := writable_new shared_buffers\<rparr>,
          shared_buffer_calls (Port2 1)) \<and>
   transmit {} (shared_buffer_calls (Port2 1)) = ([], {}, True) \<and>
   delivered_on {} (Port2 1) (shared_buffer_calls (Port2 1)) = []"
  by (simp add: passthrough_codec_def shared_buffers_def passthrough_primary_def
      passthrough_replica_def shared_buffer_calls_def primary_new_def primary_attach_def
      primary_handleMessage_def primary_set_def replica_set_def control_message_def
      set_message_def encodePayload_def decodePayload_def sendPayload_def set_add_def
      writable_new_def writable_get_def writable_set_def replica_receive_def
      delivered_on_def post_throws_def Let_def
      sendLoop.simps [of _ _ _ _ 0] sendLoop.simps [of _ _ _ _ "Suc 0"])

text \<open>
  Where the call does not throw, the value arrives: at every replica on a subscribed
  port after \<open>set\<close> on the primary, and, after \<open>set\<close> on an attached replica, at the
  primary, which sends nothing back on the port the envelope came from, and at every
  replica on another subscribed port.
\<close>

lemma primary_set_reaches_subscriber:
  assumes codec: "fst (decodePayload (options r) (fst (encodePayload (options s) v))) = v"
    and ok: "\<not> post_throws D (set_message (store_id s) (fst (encodePayload (options s) v)))
               (case encode (options s) of
                  None \<Rightarrow> []
                | Some f \<Rightarrow> getTransferables (fst (encodePayload (options s) v)))"
    and sub: "p \<in> set (subscribers s)"
    and r: "store_id r = store_id s" "upstream r = Some (peer p)"
  shows "\<exists>s' ev. primary_set s v = Inr (s', ev) \<and> current (wrapped s') = v \<and>
           \<not> threw D ev \<and>
           current (wrapped (replica_receive r (peer p) (delivered_on D p ev))) = v"
proof -
  let ?payload = "fst (encodePayload (options s) v)"
  let ?ev = "snd (encodePayload (options s) v)
          @ sendPayload (options s) (store_id s) ?payload (subscribers s)"
  have t: "\<not> threw D ?ev"
    using transmit_sendPayload [OF ok, of "subscribers s"]
    by (simp add: threw_def transmit_skip posts_encodePayload)
  have d: "delivered_on D p ?ev =
      replicate (count_list (subscribers s) p) (set_message (store_id s) ?payload)"
    using delivered_on_sendPayload [OF ok, of p "subscribers s"]
    by (simp add: delivered_on_skip posts_encodePayload)
  have "current (wrapped (replica_receive r (peer p) (delivered_on D p ?ev))) = v"
    unfolding d
    using replica_handle_all_replicate
            [of r "store_id s" "count_list (subscribers s) p" ?payload]
      r count_list_pos [OF sub] codec
    by (simp add: replica_receive_def)
  with t primary_set_eq [of s v] show ?thesis
    by (simp add: writable_set_def)
qed

lemma replica_set_reaches_primary_and_others:
  assumes up: "upstream r = Some u" and id: "store_id r = store_id s"
    and opts: "options r = opts" "options s = opts"
    and codec: "fst (decodePayload opts (fst (encodePayload opts v))) = v"
    and ok_replica: "\<not> post_throws Dr (set_message (store_id s) (fst (encodePayload opts v)))
               (case encode opts of
                  None \<Rightarrow> []
                | Some f \<Rightarrow> getTransferables (fst (encodePayload opts v)))"
  shows "\<exists>r' ev1 s' ev2.
           replica_set r v = Inr (r', ev1) \<and> current (wrapped r') = v \<and>
           delivered_on Dr u ev1 = [set_message (store_id s) (fst (encodePayload opts v))] \<and>
           primary_handleMessage s p (set_message (store_id s) (fst (encodePayload opts v))) =
             Inr (s', ev2) \<and>
           current (wrapped s') = v \<and>
           post_calls_on p ev2 = [] \<and>
           (\<not> post_throws Dp (set_message (store_id s) (fst (encodePayload opts v)))
                (case encode opts of
                   None \<Rightarrow> []
                 | Some f \<Rightarrow> getTransferables (fst (encodePayload opts v))) \<longrightarrow>
              (\<forall>q r2. q \<in> set (subscribers s) \<and> q \<noteq> p \<and> store_id r2 = store_id s \<and>
                 options r2 = opts \<and> upstream r2 = Some (peer q) \<longrightarrow>
                 current (wrapped (replica_receive r2 (peer q) (delivered_on Dp q ev2))) = v))"
proof -
  let ?payload = "fst (encodePayload opts v)"
  let ?msg = "set_message (store_id s) ?payload"
  let ?T = "case encode opts of None \<Rightarrow> [] | Some f \<Rightarrow> getTransferables ?payload"
  let ?r' = "r\<lparr>wrapped := writable_set (wrapped r) v\<rparr>"
  let ?ev1 = "snd (encodePayload opts v) @ sendPayload opts (store_id s) ?payload [u]"
  let ?s' = "s\<lparr>wrapped := writable_set (wrapped s) v\<rparr>"
  let ?ev2 = "snd (decodePayload opts ?payload)
           @ sendPayload opts (store_id s) ?payload (filter (\<lambda>q. q \<noteq> p) (subscribers s))"
  have 1: "replica_set r v = Inr (?r', ?ev1)"
    using up id opts by (simp add: replica_set_def split_beta)
  have 2: "current (wrapped ?r') = v" by (simp add: writable_set_def)
  have 3: "delivered_on Dr u ?ev1 = [?msg]"
    using delivered_on_sendPayload [OF ok_replica, of u "[u]"]
    by (simp add: delivered_on_skip posts_encodePayload)
  have m: "msg_id ?msg = store_id s" "msg_type ?msg = ''set''" "payload_of ?msg = ?payload"
    by (simp_all add: set_message_def payload_of_def)
  have 4: "primary_handleMessage s p ?msg = Inr (?s', ?ev2)"
    using primary_handleMessage_set [OF m(1,2), of p] opts codec by (simp add: m(3))
  have 5: "current (wrapped ?s') = v" by (simp add: writable_set_def)
  have 6: "post_calls_on p ?ev2 = []"
    by (simp add: post_calls_on_append post_calls_on_codec post_calls_on_sendPayload
        count_list_filter_self)
  have 7: "current (wrapped (replica_receive r2 (peer q) (delivered_on Dp q ?ev2))) = v"
    if ok: "\<not> post_throws Dp ?msg ?T"
      and q: "q \<in> set (subscribers s) \<and> q \<noteq> p \<and> store_id r2 = store_id s \<and>
                 options r2 = opts \<and> upstream r2 = Some (peer q)"
    for q r2
  proof -
    have d: "delivered_on Dp q ?ev2 =
        replicate (count_list (filter (\<lambda>q. q \<noteq> p) (subscribers s)) q) ?msg"
      using delivered_on_sendPayload [OF ok, of q "filter (\<lambda>q. q \<noteq> p) (subscribers s)"]
      by (simp add: delivered_on_skip posts_decodePayload)
    from q have k: "0 < count_list (filter (\<lambda>q. q \<noteq> p) (subscribers s)) q"
      using count_list_pos [of q "subscribers s"] by (simp add: count_list_filter_other)
    from q replica_handle_all_replicate [OF _ k, of r2 "store_id s" ?payload] codec
    show ?thesis unfolding d by (simp add: replica_receive_def)
  qed
  from 1 2 3 4 5 6 7 show ?thesis by blast
qed

section \<open>The test of the codec hooks\<close>

text \<open>
  The test \<^verbatim>\<open>transport serialization\<close> of the repository, replayed: each side handles
  the envelopes the other side posts. It expects three calls of \<open>encode\<close> and two of
  \<open>decode\<close> in all, and the primary to end with the value 0.
\<close>

lemma transport_serialization_counts:
  "map_option (\<lambda>(s, ev). (current (wrapped s), post_calls_on (Port1 1) ev,
                           length (filter is_EncodeCall ev), length (filter is_DecodeCall ev)))
     (primary_run (primary_new ''test'' (writable_new (JNum 0)) words_codec) test_primary_calls) =
     Some (JNum 0, [set_message ''test'' (JStr ''forty two'')], 2, 1) \<and>
   map_option (\<lambda>(r, ev). (current (wrapped r), post_calls_on (Port2 1) ev,
                           length (filter is_EncodeCall ev), length (filter is_DecodeCall ev)))
     (replica_run (replica_new ''test'' (writable_new (JNum 0)) words_codec) test_replica_calls) =
     Some (JNum 43232,
           [control_message ''test'' ''subscribe'', control_message ''test'' ''unsubscribe'',
            set_message ''test'' (JStr ''boring number'')], 1, 1)"
  by (simp add: test_primary_calls_def test_replica_calls_def primary_new_def replica_new_def
      writable_new_def words_codec_def primary_attach_def primary_set_def
      primary_handleMessage_def primary_subscribe_def replica_attach_def replica_subscribe_def
      replica_handleMessage_def replica_unsubscriber_def replica_set_def
      writable_subscribe_def writable_unsubscribe_def writable_set_def writable_get_def
      encodePayload_def decodePayload_def sendPayload_def payload_of_def
      control_message_def set_message_def set_add_def set_delete_def Let_def
      sendLoop.simps [of _ _ _ _ 0] sendLoop.simps [of _ _ _ _ "Suc 0"])

end
